theory Spec2Isabelle
  imports Main "HOL-Library.Log_Nat"
begin

section \<open>Strings, bytes and the error type\<close>

text \<open>
  A JavaScript string is a sequence of UTF-16 code units; a Buffer is a sequence of
  bytes. String literals of the source are written \<open>js ''...''\<close> where they are ASCII and
  as explicit code units otherwise.
\<close>

type_synonym jsstring = "nat list"
type_synonym bytes = "char list"

definition js :: "string \<Rightarrow> jsstring" where
  "js s = map of_char s"

datatype ErrorCode = InvalidParams | InternalError | MethodNotFound

record mcp_error =
  code :: ErrorCode
  message :: jsstring

text \<open>What \<open>axios.get\<close> can come back with: an HTTP response (status, the content-type
  header if there is one, the body), or a failure that carries no response, with the
  message of the thrown error if it has one.\<close>

datatype fetch_result =
    Response nat "jsstring option" bytes
  | NoResponse "jsstring option"

datatype jsnum = NaN | PInf | NInf | Fin rat

text \<open>
  The library functions the server calls are parameters of the model:
  \<^item> \<open>deflate\<close> is \<open>pako.deflate\<close> on a string (UTF-8 encoding, then zlib compression);
  \<open>axios_get\<close> is the single HTTP GET;
  \<^item> \<open>mcp_message\<close> is the text that the SDK's \<open>McpError\<close> constructor stores in
  \<open>.message\<close> for a code and a message;
  \<^item> \<open>number_toString\<close> is \<open>Number.prototype.toString\<close>, which \<open>toFixed\<close> falls back to for
  values that are not finite or not below \<open>10^21\<close>;
  \<^item> \<open>extname\<close> and \<open>dirname\<close> are those of the platform's \<open>path\<close> module;
  \<^item> \<open>fs_mkdir\<close> says whether \<open>fs.mkdir\<close> succeeds (\<open>None\<close>) or throws (the message of the
  error, if any);
  \<^item> \<open>fs_writeFile\<close> says whether \<open>fs.writeFile\<close> writes the file or throws, and then with
  which message and what it has left in the file: nothing (\<open>None\<close>), or some content,
  for instance the beginning of the data when the disk is full.
\<close>

datatype write_result = Written | WriteThrows "jsstring option" "bytes option"

record env =
  deflate :: "jsstring \<Rightarrow> bytes"
  axios_get :: "jsstring \<Rightarrow> fetch_result"
  mcp_message :: "ErrorCode \<Rightarrow> jsstring \<Rightarrow> jsstring"
  number_toString :: "jsnum \<Rightarrow> jsstring"
  extname :: "jsstring \<Rightarrow> jsstring"
  dirname :: "jsstring \<Rightarrow> jsstring"
  fs_mkdir :: "jsstring \<Rightarrow> jsstring option option"
  fs_writeFile :: "jsstring \<Rightarrow> bytes \<Rightarrow> write_result"

definition McpError :: "env \<Rightarrow> ErrorCode \<Rightarrow> jsstring \<Rightarrow> mcp_error" where
  "McpError e c m = \<lparr>code = c, message = mcp_message e c m\<rparr>"

text \<open>What the server has done, in order: a request sent, a directory made, a file left with
  a content.\<close>

datatype event = Fetch jsstring | Mkdir jsstring | WriteFile jsstring bytes

section \<open>Validation\<close>

definition KROKI_BASE_URL :: jsstring where
  "KROKI_BASE_URL = js ''https://kroki.io''"

definition validTypes :: "jsstring list" where
  "validTypes = map js
    [''mermaid'', ''plantuml'', ''graphviz'', ''c4plantuml'',
     ''excalidraw'', ''erd'', ''svgbob'', ''nomnoml'', ''wavedrom'',
     ''blockdiag'', ''seqdiag'', ''actdiag'', ''nwdiag'', ''packetdiag'',
     ''rackdiag'', ''umlet'', ''ditaa'', ''vega'', ''vegalite'']"

definition validFormats :: "jsstring list" where
  "validFormats = map js [''svg'', ''png'', ''pdf'', ''jpeg'', ''base64'']"

fun join :: "jsstring \<Rightarrow> jsstring list \<Rightarrow> jsstring" where
  "join sep [] = []"
| "join sep [x] = x"
| "join sep (x # y # ys) = x @ sep @ join sep (y # ys)"

definition validateDiagramType :: "env \<Rightarrow> jsstring \<Rightarrow> mcp_error + unit" where
  "validateDiagramType e t =
     (if t \<notin> set validTypes
      then Inl (McpError e InvalidParams
                 (js ''Invalid diagram type. Must be one of: '' @ join (js '', '') validTypes))
      else Inr ())"

definition validateOutputFormat :: "env \<Rightarrow> jsstring \<Rightarrow> mcp_error + unit" where
  "validateOutputFormat e f =
     (if f \<notin> set validFormats
      then Inl (McpError e InvalidParams
                 (js ''Invalid output format. Must be one of: '' @ join (js '', '') validFormats))
      else Inr ())"

text \<open>\<open>x || d\<close> on an optional string: a missing and an empty string are both falsy.\<close>

definition or_default :: "jsstring option \<Rightarrow> jsstring \<Rightarrow> jsstring" where
  "or_default x d = (case x of None \<Rightarrow> d | Some s \<Rightarrow> if s = [] then d else s)"

section \<open>The content encoder\<close>

definition b64_alphabet :: string where
  "b64_alphabet = ''ABCDEFGHIJKLMNOPQRSTUVWXYZabcdefghijklmnopqrstuvwxyz0123456789+/''"

definition b64_char :: "nat \<Rightarrow> nat" where
  "b64_char i = of_char (b64_alphabet ! (i mod 64))"

text \<open>\<open>Buffer.toString('base64')\<close>: three bytes give four characters, the last group is
  padded with \<open>=\<close> (code unit 61).\<close>

fun base64_nat :: "nat list \<Rightarrow> jsstring" where
  "base64_nat (a # b # c # rest) =
     b64_char (a div 4) # b64_char ((a mod 4) * 16 + b div 16) #
     b64_char ((b mod 16) * 4 + c div 64) # b64_char (c mod 64) # base64_nat rest"
| "base64_nat [a, b] =
     [b64_char (a div 4), b64_char ((a mod 4) * 16 + b div 16), b64_char ((b mod 16) * 4), 61]"
| "base64_nat [a] = [b64_char (a div 4), b64_char ((a mod 4) * 16), 61, 61]"
| "base64_nat [] = []"

definition base64 :: "bytes \<Rightarrow> jsstring" where
  "base64 bs = base64_nat (map of_char bs)"

text \<open>\<open>s.replace(/c/g, 'd')\<close> for a pattern of one literal character \<open>c\<close> and a
  replacement of one character \<open>d\<close>.\<close>

text \<open>The two replacements of the encoder, on one character.\<close>

definition url_safe :: "nat \<Rightarrow> nat" where
  "url_safe c = (if c = 43 then 45 else if c = 47 then 95 else c)"

definition replace_char :: "nat \<Rightarrow> nat \<Rightarrow> jsstring \<Rightarrow> jsstring" where
  "replace_char c d s = map (\<lambda>x. if x = c then d else x) s"

text \<open>The token, as both \<open>getDiagramData\<close> and \<open>generateDiagramUrl\<close> compute it:
  \<open>Buffer.from(pako.deflate(content)).toString('base64').replace(/\+/g, '-').replace(/\//g, '_')\<close>.\<close>

definition encodedContent :: "env \<Rightarrow> jsstring \<Rightarrow> jsstring" where
  "encodedContent e content =
     replace_char 47 95 (replace_char 43 45 (base64 (deflate e content)))"

text \<open>Reading a token back, as the service does: the base64 decoding of RFC 4648 for the
  alphabet in which \<open>-\<close> and \<open>_\<close> stand for the values 62 and 63. It serves to state
  that the token is a base64 text of the compressed bytes.\<close>

definition b64url_value :: "nat \<Rightarrow> nat" where
  "b64url_value c =
     (if 65 \<le> c \<and> c \<le> 90 then c - 65
      else if 97 \<le> c \<and> c \<le> 122 then c - 71
      else if 48 \<le> c \<and> c \<le> 57 then c + 4
      else if c = 45 then 62
      else if c = 95 then 63
      else 0)"

fun b64url_decode :: "jsstring \<Rightarrow> nat list" where
  "b64url_decode (a # b # c # d # rest) =
     (if c = 61 then [b64url_value a * 4 + b64url_value b div 16]
      else if d = 61
      then [b64url_value a * 4 + b64url_value b div 16,
            (b64url_value b mod 16) * 16 + b64url_value c div 4]
      else [b64url_value a * 4 + b64url_value b div 16,
            (b64url_value b mod 16) * 16 + b64url_value c div 4,
            (b64url_value c mod 4) * 64 + b64url_value d] @ b64url_decode rest)"
| "b64url_decode _ = []"

definition diagram_url :: "jsstring \<Rightarrow> jsstring \<Rightarrow> jsstring \<Rightarrow> jsstring" where
  "diagram_url t f token = KROKI_BASE_URL @ js ''/'' @ t @ js ''/'' @ f @ js ''/'' @ token"

section \<open>Text primitives of the JavaScript library\<close>

text \<open>White space as \<open>String.prototype.trim\<close> and the pattern \<open>\s\<close> see it: the
  WhiteSpace and LineTerminator code points of ECMAScript.\<close>

definition is_space :: "nat \<Rightarrow> bool" where
  "is_space c \<longleftrightarrow>
     (9 \<le> c \<and> c \<le> 13) \<or> c = 32 \<or> c = 0xA0 \<or> c = 0x1680 \<or> (0x2000 \<le> c \<and> c \<le> 0x200A) \<or>
     c = 0x2028 \<or> c = 0x2029 \<or> c = 0x202F \<or> c = 0x205F \<or> c = 0x3000 \<or> c = 0xFEFF"

definition trim :: "jsstring \<Rightarrow> jsstring" where
  "trim s = rev (dropWhile is_space (rev (dropWhile is_space s)))"

definition startsWith :: "jsstring \<Rightarrow> jsstring \<Rightarrow> bool" where
  "startsWith s p \<longleftrightarrow> take (length p) s = p"

fun includes_str :: "jsstring \<Rightarrow> jsstring \<Rightarrow> bool" where
  "includes_str [] p \<longleftrightarrow> p = []"
| "includes_str (x # xs) p \<longleftrightarrow> startsWith (x # xs) p \<or> includes_str xs p"

text \<open>\<open>toLowerCase\<close> on a header value. Node delivers header values as Latin-1 text, so the
  code units are below 256; there the mapping moves \<open>A-Z\<close> and the accented capitals
  (all of \<open>0xC0..0xDE\<close> but the multiplication sign) 32 places up.\<close>

definition lower_unit :: "nat \<Rightarrow> nat" where
  "lower_unit c =
     (if (65 \<le> c \<and> c \<le> 90) \<or> (0xC0 \<le> c \<and> c \<le> 0xDE \<and> c \<noteq> 0xD7) then c + 32 else c)"

definition toLowerCase :: "jsstring \<Rightarrow> jsstring" where
  "toLowerCase s = map lower_unit s"

text \<open>Decimal text of a natural number, as a template literal prints an integer status.\<close>

function show_nat :: "nat \<Rightarrow> jsstring" where
  "show_nat n = (if n < 10 then [48 + n] else show_nat (n div 10) @ [48 + n mod 10])"
  by pat_completeness auto
termination
  by (relation "measure (\<lambda>n. n)") auto

declare show_nat.simps [simp del]

subsection \<open>UTF-8\<close>

text \<open>\<open>buf.toString('utf-8')\<close>: every ill-formed sequence gives one replacement character
  U+FFFD for its longest valid prefix, and decoding goes on at the offending byte. Code
  points from \<open>0x10000\<close> on become a surrogate pair.\<close>

definition is_cont :: "nat \<Rightarrow> bool" where
  "is_cont b \<longleftrightarrow> 0x80 \<le> b \<and> b \<le> 0xBF"

definition emit_cp :: "nat \<Rightarrow> nat list" where
  "emit_cp cp =
     (if cp < 0x10000 then [cp]
      else [0xD800 + (cp - 0x10000) div 1024, 0xDC00 + (cp - 0x10000) mod 1024])"

fun utf8_dec :: "nat list \<Rightarrow> jsstring" where
  "utf8_dec [] = []"
| "utf8_dec (b # bs) =
     (if b < 0x80 then b # utf8_dec bs
      else if 0xC2 \<le> b \<and> b \<le> 0xDF then
        (case bs of
           [] \<Rightarrow> [0xFFFD]
         | c1 # r1 \<Rightarrow>
             if is_cont c1 then emit_cp ((b mod 32) * 64 + c1 mod 64) @ utf8_dec r1
             else 0xFFFD # utf8_dec bs)
      else if 0xE0 \<le> b \<and> b \<le> 0xEF then
        (case bs of
           [] \<Rightarrow> [0xFFFD]
         | c1 # r1 \<Rightarrow>
             if (if b = 0xE0 then 0xA0 else 0x80) \<le> c1 \<and> c1 \<le> (if b = 0xED then 0x9F else 0xBF)
             then (case r1 of
                     [] \<Rightarrow> [0xFFFD]
                   | c2 # r2 \<Rightarrow>
                       if is_cont c2
                       then emit_cp (((b mod 16) * 64 + c1 mod 64) * 64 + c2 mod 64) @ utf8_dec r2
                       else 0xFFFD # utf8_dec r1)
             else 0xFFFD # utf8_dec bs)
      else if 0xF0 \<le> b \<and> b \<le> 0xF4 then
        (case bs of
           [] \<Rightarrow> [0xFFFD]
         | c1 # r1 \<Rightarrow>
             if (if b = 0xF0 then 0x90 else 0x80) \<le> c1 \<and> c1 \<le> (if b = 0xF4 then 0x8F else 0xBF)
             then (case r1 of
                     [] \<Rightarrow> [0xFFFD]
                   | c2 # r2 \<Rightarrow>
                       if is_cont c2
                       then (case r2 of
                               [] \<Rightarrow> [0xFFFD]
                             | c3 # r3 \<Rightarrow>
                                 if is_cont c3
                                 then emit_cp ((((b mod 8) * 64 + c1 mod 64) * 64 + c2 mod 64) * 64
                                               + c3 mod 64) @ utf8_dec r3
                                 else 0xFFFD # utf8_dec r2)
                       else 0xFFFD # utf8_dec r1)
             else 0xFFFD # utf8_dec bs)
      else 0xFFFD # utf8_dec bs)"

definition utf8_decode :: "bytes \<Rightarrow> jsstring" where
  "utf8_decode bs = utf8_dec (map of_char bs)"

text \<open>\<open>Buffer.from(s, 'utf-8')\<close>: a surrogate pair is one four-byte sequence, a lone
  surrogate is written as U+FFFD.\<close>

definition enc_cp :: "nat \<Rightarrow> nat list" where
  "enc_cp cp =
     (if cp < 0x80 then [cp]
      else if cp < 0x800 then [0xC0 + cp div 64, 0x80 + cp mod 64]
      else if cp < 0x10000 then [0xE0 + cp div 4096, 0x80 + (cp div 64) mod 64, 0x80 + cp mod 64]
      else [0xF0 + cp div 262144, 0x80 + (cp div 4096) mod 64, 0x80 + (cp div 64) mod 64,
            0x80 + cp mod 64])"

definition is_high :: "nat \<Rightarrow> bool" where
  "is_high u \<longleftrightarrow> 0xD800 \<le> u \<and> u \<le> 0xDBFF"

definition is_low :: "nat \<Rightarrow> bool" where
  "is_low u \<longleftrightarrow> 0xDC00 \<le> u \<and> u \<le> 0xDFFF"

fun utf8_enc :: "jsstring \<Rightarrow> nat list" where
  "utf8_enc [] = []"
| "utf8_enc [u] = (if is_high u \<or> is_low u then enc_cp 0xFFFD else enc_cp u)"
| "utf8_enc (u # v # r) =
     (if is_high u \<and> is_low v
      then enc_cp (0x10000 + (u - 0xD800) * 1024 + (v - 0xDC00)) @ utf8_enc r
      else if is_high u \<or> is_low u then enc_cp 0xFFFD @ utf8_enc (v # r)
      else enc_cp u @ utf8_enc (v # r))"

definition utf8_encode :: "jsstring \<Rightarrow> bytes" where
  "utf8_encode s = map char_of (utf8_enc s)"

section \<open>Regular expressions\<close>

text \<open>
  The patterns of the source use literals, character classes, a quantifier on a
  character class (greedy or lazy), sequence, alternation and capturing groups. A
  backtracking matcher tries the alternatives in a fixed order and stops at the first
  that lets the rest of the pattern match; \<open>matches\<close> lists, in that order, every way
  a pattern can match at the start of the text, each with the text left over and the
  captures made, so that the head of the list is what the backtracking matcher finds.
\<close>

datatype cls = Cls bool "(nat \<times> nat) list"

fun in_cls :: "cls \<Rightarrow> nat \<Rightarrow> bool" where
  "in_cls (Cls neg rs) c \<longleftrightarrow> (neg \<noteq> list_ex (\<lambda>(lo, hi). lo \<le> c \<and> c \<le> hi) rs)"

datatype re =
    Lit jsstring
  | One cls
  | Rep cls nat bool
  | Seq re re
  | Alt re re
  | Group nat re

type_synonym caps = "(nat \<times> jsstring) list"

text \<open>Under the flag \<open>i\<close> two code units match when their canonical forms agree. The
  literals of the source are ASCII, and a code unit from 128 on is never canonicalised to
  an ASCII one, so the canonical form is needed on ASCII letters only.\<close>

definition canon :: "nat \<Rightarrow> nat" where
  "canon c = (if 97 \<le> c \<and> c \<le> 122 then c - 32 else c)"

definition lit_eq :: "bool \<Rightarrow> jsstring \<Rightarrow> jsstring \<Rightarrow> bool" where
  "lit_eq ic a b \<longleftrightarrow> (if ic then map canon a = map canon b else a = b)"

fun matches :: "bool \<Rightarrow> re \<Rightarrow> jsstring \<times> caps \<Rightarrow> (jsstring \<times> caps) list" where
  "matches ic (Lit l) (s, c) =
     (if length l \<le> length s \<and> lit_eq ic (take (length l) s) l then [(drop (length l) s, c)] else [])"
| "matches ic (One k) (s, c) =
     (case s of [] \<Rightarrow> [] | x # xs \<Rightarrow> if in_cls k x then [(xs, c)] else [])"
| "matches ic (Rep k n greedy) (s, c) =
     (let m = length (takeWhile (in_cls k) s);
          counts = (if greedy then rev [n ..< Suc m] else [n ..< Suc m])
      in map (\<lambda>i. (drop i s, c)) counts)"
| "matches ic (Seq a b) st = concat (map (matches ic b) (matches ic a st))"
| "matches ic (Alt a b) st = matches ic a st @ matches ic b st"
| "matches ic (Group g r) (s, c) =
     map (\<lambda>(s', c'). (s', (g, take (length s - length s') s) # c')) (matches ic r (s, c))"

text \<open>The result of \<open>String.prototype.match\<close> without the flag \<open>g\<close>: the text before the
  leftmost match, the match, its captures, the text after it.\<close>

record match_result =
  before :: jsstring
  matched :: jsstring
  groups :: caps
  after :: jsstring

fun search :: "bool \<Rightarrow> re \<Rightarrow> jsstring \<Rightarrow> jsstring \<Rightarrow> match_result option" where
  "search ic r pre [] =
     (case matches ic r ([], []) of
        [] \<Rightarrow> None
      | (rest, c) # _ \<Rightarrow> Some \<lparr>before = pre, matched = [], groups = c, after = []\<rparr>)"
| "search ic r pre (x # xs) =
     (case matches ic r (x # xs, []) of
        [] \<Rightarrow> search ic r (pre @ [x]) xs
      | (rest, c) # _ \<Rightarrow>
          Some \<lparr>before = pre, matched = take (length (x # xs) - length rest) (x # xs),
                groups = c, after = rest\<rparr>)"

definition match :: "bool \<Rightarrow> re \<Rightarrow> jsstring \<Rightarrow> match_result option" where
  "match ic r s = search ic r [] s"

definition test :: "bool \<Rightarrow> re \<Rightarrow> jsstring \<Rightarrow> bool" where
  "test ic r s \<longleftrightarrow> match ic r s \<noteq> None"

text \<open>\<open>m[g]\<close>: \<open>None\<close> is \<open>undefined\<close>, the group took no part in the match.\<close>

definition group :: "match_result \<Rightarrow> nat \<Rightarrow> jsstring option" where
  "group m g = map_of (groups m) g"

lemma matches_suffix:
  "(s', c') \<in> set (matches ic r (s, c)) \<Longrightarrow> \<exists>m. s = m @ s'"
proof (induction r arbitrary: s c s' c')
  case (Lit l)
  then show ?case
    by (auto split: if_splits intro: exI [of _ "take (length l) s"])
next
  case (One k)
  then show ?case
    by (auto split: list.splits if_splits)
next
  case (Rep k n greedy)
  then show ?case
    by (auto simp: Let_def split: if_splits intro: append_take_drop_id [symmetric])
next
  case (Seq a b)
  from Seq.prems obtain s1 c1 where
    a: "(s1, c1) \<in> set (matches ic a (s, c))" and b: "(s', c') \<in> set (matches ic b (s1, c1))"
    by auto
  from Seq.IH(1) [OF a] obtain m1 where "s = m1 @ s1" ..
  moreover from Seq.IH(2) [OF b] obtain m2 where "s1 = m2 @ s'" ..
  ultimately have "s = (m1 @ m2) @ s'" by simp
  then show ?case ..
next
  case (Alt a b)
  then show ?case by auto
next
  case (Group g r)
  then show ?case by auto
qed

lemma search_length:
  "search ic r pre s = Some m \<Longrightarrow> length (matched m) + length (after m) \<le> length s"
proof (induction s arbitrary: pre)
  case Nil
  then show ?case by (auto split: list.splits)
next
  case (Cons x xs)
  show ?case
  proof (cases "matches ic r (x # xs, [])")
    case Nil
    with Cons.prems have "search ic r (pre @ [x]) xs = Some m" by simp
    from Cons.IH [OF this] show ?thesis by simp
  next
    case (Cons p ps)
    obtain rest c where p: "p = (rest, c)" by (cases p)
    with Cons have "(rest, c) \<in> set (matches ic r (x # xs, []))" by simp
    from matches_suffix [OF this] obtain k where k: "x # xs = k @ rest" ..
    then have "length rest \<le> length (x # xs)"
      by (metis length_append le_add2)
    with Cons p Cons.prems show ?thesis by auto
  qed
qed

text \<open>\<open>s.replace(/r/g, rep)\<close> for a replacement text without \<open>$\<close>: every match, from left to
  right, is replaced; after an empty match the search moves on by one code unit.\<close>

function replace_all :: "bool \<Rightarrow> re \<Rightarrow> jsstring \<Rightarrow> jsstring \<Rightarrow> jsstring" where
  "replace_all ic r rep s =
     (case match ic r s of
        None \<Rightarrow> s
      | Some m \<Rightarrow>
          if matched m = []
          then (case after m of
                  [] \<Rightarrow> before m @ rep
                | x # xs \<Rightarrow> before m @ rep @ x # replace_all ic r rep xs)
          else before m @ rep @ replace_all ic r rep (after m))"
  by pat_completeness auto
termination
proof (relation "measure (\<lambda>(ic, r, rep, s). length s)")
  show "wf (measure (\<lambda>(ic, r, rep, s). length s))" by simp
next
  fix ic r rep s m x xs
  assume "match ic r s = Some m" "after m = x # xs"
  then show "((ic, r, rep, xs), ic, r, rep, s) \<in> measure (\<lambda>(ic, r, rep, s). length s)"
    using search_length [of ic r "[]" s m] by (simp add: match_def)
next
  fix ic r rep s m
  assume "match ic r s = Some m" "matched m \<noteq> []"
  then show "((ic, r, rep, after m), ic, r, rep, s) \<in> measure (\<lambda>(ic, r, rep, s). length s)"
    using search_length [of ic r "[]" s m] by (cases "matched m") (simp_all add: match_def)
qed

text \<open>\<open>s.replace(pat, rep)\<close> with a string pattern: the first occurrence of \<open>pat\<close> is
  replaced by \<open>rep\<close>, in which \<open>$$\<close> stands for a dollar sign, \<open>$&\<close> for the matched text,
  \<open>$`\<close> for the text before it and \<open>$'\<close> for the text after it (a string pattern has no
  groups, so a dollar sign before anything else stands for itself).\<close>

fun find_sub :: "jsstring \<Rightarrow> jsstring \<Rightarrow> jsstring \<Rightarrow> (jsstring \<times> jsstring) option" where
  "find_sub pat pre [] = (if pat = [] then Some (pre, []) else None)"
| "find_sub pat pre (x # xs) =
     (if startsWith (x # xs) pat then Some (pre, drop (length pat) (x # xs))
      else find_sub pat (pre @ [x]) xs)"

fun expand_dollar :: "jsstring \<Rightarrow> jsstring \<Rightarrow> jsstring \<Rightarrow> jsstring \<Rightarrow> jsstring" where
  "expand_dollar m pre post [] = []"
| "expand_dollar m pre post [c] = [c]"
| "expand_dollar m pre post (c # d # r) =
     (if c = 36 \<and> d = 36 then 36 # expand_dollar m pre post r
      else if c = 36 \<and> d = 38 then m @ expand_dollar m pre post r
      else if c = 36 \<and> d = 96 then pre @ expand_dollar m pre post r
      else if c = 36 \<and> d = 39 then post @ expand_dollar m pre post r
      else c # expand_dollar m pre post (d # r))"

definition str_replace :: "jsstring \<Rightarrow> jsstring \<Rightarrow> jsstring \<Rightarrow> jsstring" where
  "str_replace s pat rep =
     (case find_sub pat [] s of
        None \<Rightarrow> s
      | Some (pre, post) \<Rightarrow> pre @ expand_dollar pat pre post rep @ post)"

text \<open>Replacing a fixed text, said directly: from left to right, every occurrence of \<open>p\<close>
  that does not overlap one already replaced becomes \<open>rep\<close>. It is what \<open>replace_all\<close> does
  for a pattern that is a literal (proved below), and serves to state what the decoding
  of an error message does.\<close>

function replace_text :: "jsstring \<Rightarrow> jsstring \<Rightarrow> jsstring \<Rightarrow> jsstring" where
  "replace_text p rep s =
     (if p = [] then s
      else case s of
             [] \<Rightarrow> []
           | x # xs \<Rightarrow>
               if startsWith (x # xs) p then rep @ replace_text p rep (drop (length p) (x # xs))
               else x # replace_text p rep xs)"
  by pat_completeness auto
termination
  by (relation "measure (\<lambda>(p, rep, s). length s)") (auto simp: neq_Nil_conv)

declare replace_text.simps [simp del]

section \<open>Numbers\<close>

text \<open>
  A JavaScript number is an IEEE 754 double. A finite double is held as the rational it
  denotes; \<open>round_double\<close> rounds a rational to the nearest double, ties to even, with 53
  bits of precision, gradual underflow below \<open>2^-1022\<close> and overflow to infinity from
  \<open>2^1024\<close> on. The two zeros are one value here: no operation below tells them apart
  (\<open>toFixed\<close> prints both as \<open>0.00\<close>).
\<close>

definition pow2 :: "int \<Rightarrow> rat" where
  "pow2 e = (if 0 \<le> e then 2 ^ nat e else 1 / 2 ^ nat (- e))"

definition pow10 :: "int \<Rightarrow> rat" where
  "pow10 e = (if 0 \<le> e then 10 ^ nat e else 1 / 10 ^ nat (- e))"

text \<open>\<open>binexp a\<close> is the integer \<open>e\<close> with \<open>2^e \<le> a < 2^(e+1)\<close>, for positive \<open>a\<close>.\<close>

definition binexp :: "rat \<Rightarrow> int" where
  "binexp a = (let (n, d) = quotient_of a; e = bitlen n - bitlen d
               in if pow2 e \<le> a then e else e - 1)"

definition round_half_even :: "rat \<Rightarrow> int" where
  "round_half_even q =
     (let f = \<lfloor>q\<rfloor>; d = q - of_int f
      in if d < 1 / 2 then f else if 1 / 2 < d then f + 1 else if even f then f else f + 1)"

definition round_double :: "rat \<Rightarrow> jsnum" where
  "round_double q =
     (if q = 0 then Fin 0
      else let a = \<bar>q\<bar>;
               e = max (binexp a) (- 1022);
               ulp = pow2 (e - 52);
               r = of_int (round_half_even (a / ulp)) * ulp
           in if pow2 1024 \<le> r then (if 0 < q then PInf else NInf)
              else Fin (if 0 < q then r else - r))"

fun num_mul :: "jsnum \<Rightarrow> jsnum \<Rightarrow> jsnum" where
  "num_mul NaN y = NaN"
| "num_mul x NaN = NaN"
| "num_mul (Fin a) (Fin b) = round_double (a * b)"
| "num_mul (Fin a) PInf = (if a = 0 then NaN else if 0 < a then PInf else NInf)"
| "num_mul (Fin a) NInf = (if a = 0 then NaN else if 0 < a then NInf else PInf)"
| "num_mul PInf (Fin b) = (if b = 0 then NaN else if 0 < b then PInf else NInf)"
| "num_mul NInf (Fin b) = (if b = 0 then NaN else if 0 < b then NInf else PInf)"
| "num_mul PInf PInf = PInf"
| "num_mul PInf NInf = NInf"
| "num_mul NInf PInf = NInf"
| "num_mul NInf NInf = PInf"

text \<open>\<open>x > 1.0\<close>.\<close>

fun gt_one :: "jsnum \<Rightarrow> bool" where
  "gt_one NaN \<longleftrightarrow> False"
| "gt_one PInf \<longleftrightarrow> True"
| "gt_one NInf \<longleftrightarrow> False"
| "gt_one (Fin a) \<longleftrightarrow> 1 < a"

definition isNaN :: "jsnum \<Rightarrow> bool" where
  "isNaN x \<longleftrightarrow> x = NaN"

definition is_digit :: "nat \<Rightarrow> bool" where
  "is_digit c \<longleftrightarrow> 48 \<le> c \<and> c \<le> 57"

definition digits_val :: "jsstring \<Rightarrow> nat" where
  "digits_val ds = foldl (\<lambda>a d. a * 10 + (d - 48)) 0 ds"

text \<open>An optional sign in front of a text: whether it is a minus, and the rest.\<close>

definition take_sign :: "jsstring \<Rightarrow> bool \<times> jsstring" where
  "take_sign t =
     (case t of
        [] \<Rightarrow> (False, t)
      | c # r \<Rightarrow> if c = 45 then (True, r) else if c = 43 then (False, r) else (False, t))"

text \<open>\<open>parseFloat\<close>: leading white space is skipped, then the longest prefix that is a decimal
  literal (sign, \<open>Infinity\<close> or digits with an optional fraction and an optional complete
  exponent) is read and rounded; with no such prefix the result is NaN.\<close>

definition parseFloat :: "jsstring \<Rightarrow> jsnum" where
  "parseFloat str =
     (let (neg, u) = take_sign (dropWhile is_space str)
      in if startsWith u (js ''Infinity'') then (if neg then NInf else PInf)
         else
           let ip = takeWhile is_digit u;
               r1 = dropWhile is_digit u;
               (fp, r2) = (case r1 of
                             [] \<Rightarrow> ([], r1)
                           | c # r \<Rightarrow> if c = 46 then (takeWhile is_digit r, dropWhile is_digit r)
                                      else ([], r1))
           in if ip = [] \<and> fp = [] then NaN
              else
                let ex = (case r2 of
                            [] \<Rightarrow> 0
                          | c # r \<Rightarrow>
                              if c = 101 \<or> c = 69
                              then (let (eneg, r3) = take_sign r;
                                        ed = takeWhile is_digit r3
                                    in if ed = [] then 0
                                       else if eneg then - int (digits_val ed)
                                       else int (digits_val ed))
                              else 0);
                    mv = of_nat (digits_val (ip @ fp)) * pow10 (ex - int (length fp))
                in round_double (if neg then - mv else mv))"

text \<open>\<open>x.toFixed(2)\<close>: the nearest multiple of a hundredth (the larger one on a tie),
  printed with at least one digit before the point.\<close>

definition toFixed2 :: "env \<Rightarrow> jsnum \<Rightarrow> jsstring" where
  "toFixed2 e x =
     (case x of
        NaN \<Rightarrow> js ''NaN''
      | PInf \<Rightarrow> js ''Infinity''
      | NInf \<Rightarrow> js ''-Infinity''
      | Fin q \<Rightarrow>
          let s = (if q < 0 then js ''-'' else []); a = \<bar>q\<bar>
          in if 10 ^ 21 \<le> a then s @ number_toString e (Fin a)
             else
               let m = show_nat (nat \<lfloor>a * 100 + 1 / 2\<rfloor>);
                   m' = (if length m \<le> 2 then replicate (3 - length m) 48 @ m else m)
               in s @ take (length m' - 2) m' @ js ''.'' @ drop (length m' - 2) m')"

section \<open>The patterns of the source\<close>

fun seqs :: "re list \<Rightarrow> re" where
  "seqs [] = Lit []"
| "seqs [r] = r"
| "seqs (r # q # rs) = Seq r (seqs (q # rs))"

text \<open>\<open>[\s\S]\<close>, \<open>.\<close> (anything but a line terminator), \<open>[^>]\<close>, \<open>[^"]\<close>, \<open>\s\<close> and \<open>[0-9.]\<close>.\<close>

definition any_cls :: cls where
  "any_cls = Cls True []"

definition dot_cls :: cls where
  "dot_cls = Cls True [(10, 10), (13, 13), (0x2028, 0x2029)]"

definition not_gt :: cls where
  "not_gt = Cls True [(62, 62)]"

definition not_quote :: cls where
  "not_quote = Cls True [(34, 34)]"

definition space_cls :: cls where
  "space_cls = Cls False [(9, 13), (32, 32), (0xA0, 0xA0), (0x1680, 0x1680), (0x2000, 0x200A),
     (0x2028, 0x2029), (0x202F, 0x202F), (0x205F, 0x205F), (0x3000, 0x3000), (0xFEFF, 0xFEFF)]"

definition digit_dot :: cls where
  "digit_dot = Cls False [(48, 57), (46, 46)]"

text \<open>\<open>/<title>(.*?)<\/title>/i\<close>, \<open>/<body>([\s\S]*?)<\/body>/i\<close>, \<open>/unable to decode/i\<close>,
  \<open>/<pre>([\s\S]*?)<\/pre>/i\<close>, \<open>/<[^>]+>/g\<close> and \<open>/\s+/g\<close>.\<close>

definition title_re :: re where
  "title_re = seqs [Lit (js ''<title>''), Group 1 (Rep dot_cls 0 False), Lit (js ''</title>'')]"

definition body_re :: re where
  "body_re = seqs [Lit (js ''<body>''), Group 1 (Rep any_cls 0 False), Lit (js ''</body>'')]"

definition unable_re :: re where
  "unable_re = Lit (js ''unable to decode'')"

definition pre_re :: re where
  "pre_re = seqs [Lit (js ''<pre>''), Group 1 (Rep any_cls 0 False), Lit (js ''</pre>'')]"

definition tag_re :: re where
  "tag_re = seqs [Lit (js ''<''), Rep not_gt 1 True, Lit (js ''>'')]"

definition spaces_re :: re where
  "spaces_re = Rep space_cls 1 True"

text \<open>\<open>/<text[^>]*class="error"[^>]*>([\s\S]*?)<\/text>|<text[^>]*fill="red"[^>]*>([\s\S]*?)<\/text>/i\<close>\<close>

definition error_text_re :: re where
  \<open>error_text_re =
     Alt (seqs [Lit (js ''<text''), Rep not_gt 0 True, Lit (js ''class="error"''), Rep not_gt 0 True,
                Lit (js ''>''), Group 1 (Rep any_cls 0 False), Lit (js ''</text>'')])
         (seqs [Lit (js ''<text''), Rep not_gt 0 True, Lit (js ''fill="red"''), Rep not_gt 0 True,
                Lit (js ''>''), Group 2 (Rep any_cls 0 False), Lit (js ''</text>'')])\<close>

text \<open>\<open>/<svg([^>]*)>/\<close>, and \<open>/width="([^"]+)"/\<close> or \<open>/height="([^"]+)"/\<close> for the attribute name
  given.\<close>

definition svg_re :: re where
  "svg_re = seqs [Lit (js ''<svg''), Group 1 (Rep not_gt 0 True), Lit (js ''>'')]"

definition attr_re :: "jsstring \<Rightarrow> re" where
  \<open>attr_re name = seqs [Lit (name @ js ''="''), Group 1 (Rep not_quote 1 True), Lit (js ''"'')]\<close>

text \<open>The shape of both alternatives of the pattern for an error text: an opening tag that
  begins with \<open>T\<close> and holds the marker \<open>L\<close> before its closing \<open>>\<close>, a content, and
  the closing tag \<open>CL\<close>.\<close>

definition element_re :: "jsstring \<Rightarrow> jsstring \<Rightarrow> jsstring \<Rightarrow> nat \<Rightarrow> re" where
  "element_re T L CL g =
     seqs [Lit T, Rep not_gt 0 True, Lit L, Rep not_gt 0 True, Lit (js ''>''),
           Group g (Rep any_cls 0 False), Lit CL]"

text \<open>The text of a group that took part in the match.\<close>

definition group_text :: "match_result \<Rightarrow> nat \<Rightarrow> jsstring" where
  "group_text m g = (case group m g of None \<Rightarrow> [] | Some t \<Rightarrow> t)"

section \<open>Fetching and checking a diagram\<close>

record DiagramOptions =
  type :: jsstring
  content :: jsstring
  outputFormat :: "jsstring option"

record ScaledOptions = DiagramOptions +
  scale :: "jsnum option"

record DownloadArguments = ScaledOptions +
  outputPath :: jsstring

subsection \<open>The HTML error page\<close>

definition isHtmlResponse :: "jsstring \<Rightarrow> bytes \<Rightarrow> bool" where
  "isHtmlResponse contentType data \<longleftrightarrow>
     includes_str contentType (js ''text/html'') \<or>
     startsWith (trim (utf8_decode (take 100 data))) (js ''<html'') \<or>
     startsWith (trim (utf8_decode (take 100 data))) (js ''<!DOCTYPE html'')"

text \<open>The fixed texts of the messages. In English: "Decode error: Kroki could not decode the
  source. Check the format and the content of the description.", "details:", "(content: ",
  and the prefix "Kroki error: ".\<close>

definition decode_error_text :: jsstring where
  "decode_error_text =
     [0x30C7, 0x30B3, 0x30FC, 0x30C9, 0x30A8, 0x30E9, 0x30FC] @ js '': Kroki'' @
     [0x304C, 0x30BD, 0x30FC, 0x30B9, 0x3092, 0x30C7, 0x30B3, 0x30FC, 0x30C9, 0x3067, 0x304D,
      0x307E, 0x305B, 0x3093, 0x3067, 0x3057, 0x305F, 0x3002, 0x8A18, 0x8FF0, 0x5F62, 0x5F0F,
      0x3084, 0x5185, 0x5BB9, 0x3092, 0x78BA, 0x8A8D, 0x3057, 0x3066, 0x304F, 0x3060, 0x3055,
      0x3044, 0x3002]"

definition details_open :: jsstring where
  "details_open = [10, 0x8A73, 0x7D30] @ js '':'' @ [10] @ js ''---'' @ [10]"

definition details_close :: jsstring where
  "details_close = [10] @ js ''---''"

definition content_open :: jsstring where
  "content_open = js '' ('' @ [0x5185, 0x5BB9] @ js '': ''"

definition kroki_error_prefix :: jsstring where
  "kroki_error_prefix = js ''Kroki'' @ [0x30A8, 0x30E9, 0x30FC] @ js '': ''"

definition extractedMessage :: "jsstring \<Rightarrow> jsstring" where
  "extractedMessage htmlContent =
     (let titleMatch = match True title_re htmlContent;
          bodyMatch = match True body_re htmlContent;
          fromTitle = (case titleMatch of
                         None \<Rightarrow> js ''Unknown error (HTML response)''
                       | Some t \<Rightarrow> trim (group_text t 1))
      in case bodyMatch of
           None \<Rightarrow> fromTitle
         | Some b \<Rightarrow>
             if test True unable_re (group_text b 1)
             then (case match True pre_re (group_text b 1) of
                     None \<Rightarrow> decode_error_text
                   | Some p \<Rightarrow>
                       if trim (group_text p 1) \<noteq> []
                       then decode_error_text @ details_open @ trim (group_text p 1) @ details_close
                       else decode_error_text)
             else
               (let plainBody = trim (replace_all False spaces_re (js '' '')
                                       (replace_all False tag_re (js '' '') (group_text b 1)))
                in if 0 < length plainBody \<and> length plainBody < 300
                   then fromTitle @ content_open @ plainBody @ js ''...)''
                   else fromTitle))"

definition htmlError :: "env \<Rightarrow> bytes \<Rightarrow> mcp_error" where
  "htmlError e data =
     McpError e InvalidParams (kroki_error_prefix @ extractedMessage (utf8_decode data))"

subsection \<open>The error text inside an SVG\<close>

text \<open>"Diagram generation error (inside the SVG):" and "Check the description."\<close>

definition svg_error_prefix :: jsstring where
  "svg_error_prefix =
     [0x30C0, 0x30A4, 0x30A2, 0x30B0, 0x30E9, 0x30E0, 0x751F, 0x6210, 0x30A8, 0x30E9, 0x30FC] @
     js '' (SVG'' @ [0x5185] @ js ''):'' @ [10]"

definition check_description :: jsstring where
  "check_description =
     [0x8A18, 0x8FF0, 0x5185, 0x5BB9, 0x3092, 0x78BA, 0x8A8D, 0x3057, 0x3066, 0x304F, 0x3060,
      0x3055, 0x3044, 0x3002]"

definition errorTextMatch :: "jsstring \<Rightarrow> match_result option" where
  "errorTextMatch svgContent = match True error_text_re svgContent"

definition rawErrorMessage :: "match_result \<Rightarrow> jsstring" where
  "rawErrorMessage m =
     trim (or_default (group m 1) (or_default (group m 2) (js ''Unknown diagram error'')))"

definition decodedErrorMessage :: "jsstring \<Rightarrow> jsstring" where
  "decodedErrorMessage raw =
     replace_all False (Lit (js ''<br/>'')) [10]
       (replace_all False (Lit (js ''&amp;'')) (js ''&'')
         (replace_all False (Lit (js ''&gt;'')) (js ''>'')
           (replace_all False (Lit (js ''&lt;'')) (js ''<'') raw)))"

definition svgError :: "env \<Rightarrow> match_result \<Rightarrow> mcp_error" where
  "svgError e m =
     McpError e InvalidParams
       (svg_error_prefix @ decodedErrorMessage (rawErrorMessage m) @ [10, 10] @ check_description)"

subsection \<open>Scaling\<close>

text \<open>One of the two blocks of the callback, for \<open>width\<close> and for \<open>height\<close>: the attribute is
  looked up in the attributes as they were, and replaced in the attributes as they are
  now. The scale factor is \<open>k\<close>.\<close>

definition scaled_attr :: "env \<Rightarrow> jsstring \<Rightarrow> jsnum \<Rightarrow> jsstring \<Rightarrow> jsstring \<Rightarrow> jsstring" where
  \<open>scaled_attr e name k attributes newAttrs =
     (case match False (attr_re name) attributes of
        None \<Rightarrow> newAttrs
      | Some w \<Rightarrow>
          if group_text w 1 = [] then newAttrs
          else
            let val = parseFloat (group_text w 1);
                unit = or_default (Some (replace_all False (One digit_dot) [] (group_text w 1)))
                         (js ''px'')
            in if \<not> isNaN val
               then str_replace newAttrs (matched w)
                      (name @ js ''="'' @ toFixed2 e (num_mul val k) @ unit @ js ''"'')
               else newAttrs)\<close>

definition applyScale :: "env \<Rightarrow> jsnum \<Rightarrow> jsstring \<Rightarrow> jsstring" where
  "applyScale e k svgContent =
     (case match False svg_re svgContent of
        None \<Rightarrow> svgContent
      | Some m \<Rightarrow>
          let attributes = group_text m 1;
              newAttrs = scaled_attr e (js ''height'') k attributes
                           (scaled_attr e (js ''width'') k attributes attributes)
          in before m @ js ''<svg'' @ newAttrs @ js ''>'' @ after m)"

subsection \<open>A response with a status outside 2xx\<close>

text \<open>"Kroki API request failed (status: ", "There seems to be an error in the description
  of the diagram (Kroki HTTP 400).", "Details from Kroki:", "Kroki gave no details on where the
  error is." and "Message from Kroki: ".\<close>

definition request_failed_text :: jsstring where
  "request_failed_text =
     js ''Kroki API'' @ [0x30EA, 0x30AF, 0x30A8, 0x30B9, 0x30C8, 0x5931, 0x6557] @ js '' ('' @
     [0x30B9, 0x30C6, 0x30FC, 0x30BF, 0x30B9] @ js '': ''"

definition syntax_error_text :: jsstring where
  "syntax_error_text =
     [0x30C0, 0x30A4, 0x30A2, 0x30B0, 0x30E9, 0x30E0, 0x306E, 0x8A18, 0x8FF0, 0x306B, 0x30A8,
      0x30E9, 0x30FC, 0x304C, 0x3042, 0x308B, 0x3088, 0x3046, 0x3067, 0x3059] @
     js '' (Kroki HTTP 400)'' @ [0x3002, 10]"

definition kroki_details_open :: jsstring where
  "kroki_details_open =
     js ''Kroki'' @ [0x304B, 0x3089, 0x306E, 0x8A73, 0x7D30, 0x60C5, 0x5831] @ js '':'' @ [10] @
     js ''---'' @ [10]"

definition kroki_details_close :: jsstring where
  "kroki_details_close = [10] @ js ''---'' @ [10]"

definition no_details_text :: jsstring where
  "no_details_text =
     js ''Kroki'' @
     [0x304B, 0x3089, 0x8A73, 0x7D30, 0x306A, 0x30A8, 0x30E9, 0x30FC, 0x7B87, 0x6240, 0x60C5,
      0x5831, 0x306F, 0x63D0, 0x4F9B, 0x3055, 0x308C, 0x307E, 0x305B, 0x3093, 0x3067, 0x3057,
      0x305F, 0x3002, 10]"

definition kroki_message_label :: jsstring where
  "kroki_message_label =
     [10] @ js ''Kroki'' @ [0x304B, 0x3089, 0x306E, 0x30E1, 0x30C3, 0x30BB, 0x30FC, 0x30B8] @
     js '': ''"

text \<open>The text of the response body, if it is not empty and shorter than 500, trimmed.\<close>

definition krokiMessage :: "bytes \<Rightarrow> jsstring" where
  "krokiMessage body =
     (let responseText = utf8_decode body
      in if responseText \<noteq> [] \<and> length responseText < 500 then trim responseText else [])"

definition userMessage :: "nat \<Rightarrow> bytes \<Rightarrow> jsstring" where
  "userMessage status body =
     (if status = 400
      then syntax_error_text @
           (if krokiMessage body \<noteq> []
            then kroki_details_open @ krokiMessage body @ kroki_details_close
            else no_details_text) @
           check_description
      else request_failed_text @ show_nat status @ js '')'' @
           (if krokiMessage body \<noteq> [] then kroki_message_label @ krokiMessage body else []))"

definition httpError :: "env \<Rightarrow> nat \<Rightarrow> bytes \<Rightarrow> mcp_error" where
  "httpError e status body =
     McpError e (if status = 400 then InvalidParams else InternalError) (userMessage status body)"

subsection \<open>\<open>getDiagramData\<close>\<close>

text \<open>What the function does with a response of status 2xx: the HTML check first, then, for
  the formats \<open>svg\<close> and \<open>base64\<close> and a body that is not empty, the search for an error text
  and, for \<open>svg\<close> and a scale above 1, the scaling.\<close>

definition checkResponse ::
  "env \<Rightarrow> jsstring \<Rightarrow> jsnum \<Rightarrow> jsstring option \<Rightarrow> bytes \<Rightarrow> mcp_error + bytes \<times> jsstring" where
  "checkResponse e fmt k header data =
     (let contentType = or_default (map_option toLowerCase header) []
      in if isHtmlResponse contentType data then Inl (htmlError e data)
         else if (fmt = js ''svg'' \<or> fmt = js ''base64'') \<and> data \<noteq> []
         then (case errorTextMatch (utf8_decode data) of
                 Some m \<Rightarrow> Inl (svgError e m)
               | None \<Rightarrow>
                   if gt_one k \<and> fmt = js ''svg''
                   then Inr (utf8_encode (applyScale e k (utf8_decode data)), fmt)
                   else Inr (data, fmt))
         else Inr (data, fmt))"

text \<open>The result comes with the requests that were sent.\<close>

definition getDiagramData ::
  "env \<Rightarrow> ScaledOptions \<Rightarrow> (mcp_error + bytes \<times> jsstring) \<times> event list" where
  "getDiagramData e options =
     (case validateDiagramType e (type options) of
        Inl err \<Rightarrow> (Inl err, [])
      | Inr _ \<Rightarrow>
          let fmt = or_default (outputFormat options) (js ''svg'')
          in case validateOutputFormat e fmt of
               Inl err \<Rightarrow> (Inl err, [])
             | Inr _ \<Rightarrow>
                 let url = diagram_url (type options) fmt (encodedContent e (content options));
                     k = (case scale options of None \<Rightarrow> Fin 1 | Some x \<Rightarrow> x)
                 in (case axios_get e url of
                       Response status header data \<Rightarrow>
                         if 200 \<le> status \<and> status < 300
                         then checkResponse e fmt k header data
                         else Inl (httpError e status data)
                     | NoResponse msg \<Rightarrow>
                         Inl (McpError e InternalError
                               (js ''Failed to fetch diagram from Kroki: '' @
                                or_default msg (js ''Unknown network error''))),
                     [Fetch url]))"

subsection \<open>\<open>generateDiagramUrl\<close> and the two tools\<close>

definition generateDiagramUrl :: "env \<Rightarrow> DiagramOptions \<Rightarrow> (mcp_error + jsstring) \<times> event list" where
  "generateDiagramUrl e options =
     (case validateDiagramType e (type options) of
        Inl err \<Rightarrow> (Inl err, [])
      | Inr _ \<Rightarrow>
          let fmt = or_default (outputFormat options) (js ''svg'')
          in case validateOutputFormat e fmt of
               Inl err \<Rightarrow> (Inl err, [])
             | Inr _ \<Rightarrow>
                 let checkFormat = (if fmt = js ''base64'' then js ''svg'' else fmt)
                 in case getDiagramData e
                           \<lparr>type = type options, content = content options,
                            outputFormat = Some checkFormat, scale = None\<rparr> of
                      (Inl err, evs) \<Rightarrow> (Inl err, evs)
                    | (Inr _, evs) \<Rightarrow>
                        (Inr (diagram_url (type options) fmt (encodedContent e (content options))),
                         evs))"

text \<open>"The diagram URL was generated and its content checked. No error was found." and then
  \<open>URL: \<close> on a new line.\<close>

definition url_checked_text :: jsstring where
  "url_checked_text =
     [0x30C0, 0x30A4, 0x30A2, 0x30B0, 0x30E9, 0x30E0] @ js ''URL'' @
     [0x3092, 0x751F, 0x6210, 0x3057, 0x3001, 0x5185, 0x5BB9, 0x3092, 0x78BA, 0x8A8D, 0x3057,
      0x307E, 0x3057, 0x305F, 0x3002, 0x30A8, 0x30E9, 0x30FC, 0x306F, 0x898B, 0x3064, 0x304B,
      0x308A, 0x307E, 0x305B, 0x3093, 0x3067, 0x3057, 0x305F, 0x3002, 10] @ js ''URL: ''"

definition generate_diagram_url :: "env \<Rightarrow> DiagramOptions \<Rightarrow> (mcp_error + jsstring) \<times> event list" where
  "generate_diagram_url e args =
     (case generateDiagramUrl e args of
        (Inl err, evs) \<Rightarrow> (Inl err, evs)
      | (Inr url, evs) \<Rightarrow> (Inr (url_checked_text @ url), evs))"

definition failed_download :: "jsstring \<Rightarrow> jsstring" where
  "failed_download targetPath = js ''Failed to download diagram to '' @ targetPath @ js '': ''"

text \<open>\<open>download_diagram\<close>. When \<open>fs.writeFile\<close> throws, the file holds what the call has
  left there, if anything.\<close>

definition download_diagram ::
  "env \<Rightarrow> DownloadArguments \<Rightarrow> (mcp_error + jsstring) \<times> event list" where
  "download_diagram e args =
     (let targetPath = outputPath args;
          determinedFormat =
            or_default (outputFormat args)
              (or_default (Some (drop 1 (extname e (outputPath args)))) (js ''svg''))
      in case getDiagramData e
                \<lparr>type = type args, content = content args, outputFormat = Some determinedFormat,
                 scale = Some (case scale args of None \<Rightarrow> Fin 1 | Some x \<Rightarrow> x)\<rparr> of
           (Inl err, evs) \<Rightarrow>
             (Inl (err\<lparr>message := failed_download targetPath @ message err\<rparr>), evs)
         | (Inr (data, fmt), evs) \<Rightarrow>
             let directory = dirname e (outputPath args)
             in case fs_mkdir e directory of
                  Some msg \<Rightarrow>
                    (Inl (McpError e InternalError
                           (failed_download targetPath @ or_default msg (js ''Unknown error''))),
                     evs)
                | None \<Rightarrow>
                    (case fs_writeFile e (outputPath args) data of
                       WriteThrows msg left \<Rightarrow>
                         (Inl (McpError e InternalError
                                (failed_download targetPath @ or_default msg (js ''Unknown error''))),
                          evs @ [Mkdir directory] @
                          (case left of None \<Rightarrow> [] | Some d \<Rightarrow> [WriteFile (outputPath args) d]))
                     | Written \<Rightarrow>
                         (Inr (js ''Diagram saved to '' @ outputPath args),
                          evs @ [Mkdir directory, WriteFile (outputPath args) data])))"

section \<open>A stub environment\<close>

text \<open>
  For running the model on concrete inputs: a transport that answers every request with
  the given result, a file system whose calls succeed, and simple stand-ins for the other
  library functions: \<open>stub_deflate\<close> stores the text uncompressed; for a path that does
  not end in a slash, \<open>stub_extname\<close> is the text from the last dot of the last segment on
  (nothing when that segment has no dot, begins with its only dot, or is \<open>..\<close>) and
  \<open>stub_dirname\<close> is the text before the last slash. The theorems below hold for every
  environment; the stub only serves to instantiate them. \<open>stub_env_disk_full\<close> is the same
  environment with a disk that is full after five bytes.
\<close>

definition stub_deflate :: "jsstring \<Rightarrow> bytes" where
  "stub_deflate s = utf8_encode s"

definition stub_basename :: "jsstring \<Rightarrow> jsstring" where
  "stub_basename p = rev (takeWhile (\<lambda>c. c \<noteq> 47) (rev p))"

definition stub_extname :: "jsstring \<Rightarrow> jsstring" where
  "stub_extname p =
     (let b = stub_basename p; ext = rev (takeWhile (\<lambda>c. c \<noteq> 46) (rev b))
      in if 46 \<in> set b
         then (if length ext + 1 = length b then [] else if b = js ''..'' then [] else 46 # ext)
         else [])"

fun stub_dirname :: "jsstring \<Rightarrow> jsstring" where
  "stub_dirname [] = []"
| "stub_dirname (c # cs) = (if 47 \<in> set cs then c # stub_dirname cs else [])"

definition stub_env :: "fetch_result \<Rightarrow> env" where
  "stub_env r =
     \<lparr>deflate = stub_deflate, axios_get = (\<lambda>url. r), mcp_message = (\<lambda>c m. m),
      number_toString = (\<lambda>x. []), extname = stub_extname, dirname = stub_dirname,
      fs_mkdir = (\<lambda>p. None), fs_writeFile = (\<lambda>p d. Written)\<rparr>"


text \<open>Bytes from ASCII text.\<close>

definition ascii :: "string \<Rightarrow> bytes" where
  "ascii s = s"

text \<open>Canned answers of the rendering service: a plain SVG, and an SVG whose root tag
  declares a width and a height.\<close>

definition svg_ok :: fetch_result where
  "svg_ok = Response 200 (Some (js ''image/svg+xml'')) (ascii ''<svg><text>A</text></svg>'')"

definition svg_sized :: bytes where
  \<open>svg_sized = ascii ''<svg width="100px" height="50px"></svg>''\<close>



section \<open>Properties of the encoder\<close>

lemma length_base64_nat: "length (base64_nat xs) = 4 * ((length xs + 2) div 3)"
proof (induction xs rule: base64_nat.induct)
  case (1 a b c rest)
  have "(length rest + 5) div 3 = Suc ((length rest + 2) div 3)"
    by presburger
  with 1 show ?case
    by (simp add: add.commute)
qed simp_all

lemma below_64:
  "(v::nat) < 64 \<Longrightarrow>
   v = 0 \<or> v = 1 \<or> v = 2 \<or> v = 3 \<or> v = 4 \<or> v = 5 \<or> v = 6 \<or> v = 7 \<or>
   v = 8 \<or> v = 9 \<or> v = 10 \<or> v = 11 \<or> v = 12 \<or> v = 13 \<or> v = 14 \<or> v = 15 \<or>
   v = 16 \<or> v = 17 \<or> v = 18 \<or> v = 19 \<or> v = 20 \<or> v = 21 \<or> v = 22 \<or> v = 23 \<or>
   v = 24 \<or> v = 25 \<or> v = 26 \<or> v = 27 \<or> v = 28 \<or> v = 29 \<or> v = 30 \<or> v = 31 \<or>
   v = 32 \<or> v = 33 \<or> v = 34 \<or> v = 35 \<or> v = 36 \<or> v = 37 \<or> v = 38 \<or> v = 39 \<or>
   v = 40 \<or> v = 41 \<or> v = 42 \<or> v = 43 \<or> v = 44 \<or> v = 45 \<or> v = 46 \<or> v = 47 \<or>
   v = 48 \<or> v = 49 \<or> v = 50 \<or> v = 51 \<or> v = 52 \<or> v = 53 \<or> v = 54 \<or> v = 55 \<or>
   v = 56 \<or> v = 57 \<or> v = 58 \<or> v = 59 \<or> v = 60 \<or> v = 61 \<or> v = 62 \<or> v = 63"
  by arith

lemma b64_value_char:
  assumes "i < 64"
  shows "b64url_value (url_safe (b64_char i)) = i \<and> url_safe (b64_char i) \<noteq> 61"
  using below_64 [OF assms]
  by (elim disjE) (simp_all add: b64url_value_def url_safe_def b64_char_def b64_alphabet_def)

lemma of_char_lt: "(of_char c :: nat) < 256"
  by (cases c) (simp add: of_char_Char)

lemma q1: "b < 256 \<Longrightarrow> ((a mod 4) * 16 + b div 16) div 16 = (a mod 4 :: nat)"
  by (simp add: div_add1_eq)

lemma q2: "b < 256 \<Longrightarrow> ((a mod 4) * 16 + b div 16) mod 16 = (b div 16 :: nat)"
  by (simp add: mod_add_eq [symmetric])

lemma q3: "c < 256 \<Longrightarrow> ((b mod 16) * 4 + c div 64) div 4 = (b mod 16 :: nat)"
  by (simp add: div_add1_eq)

lemma q4: "c < 256 \<Longrightarrow> ((b mod 16) * 4 + c div 64) mod 4 = (c div 64 :: nat)"
  by simp

lemma r1: "a < 256 \<Longrightarrow> a div 4 < (64::nat)"
  by simp

lemma r2: "b < 256 \<Longrightarrow> (a mod 4) * 16 + b div 16 < (64::nat)"
proof -
  assume "b < 256"
  then have "b div 16 < 16" by simp
  moreover have "a mod 4 \<le> 3" by simp
  ultimately show ?thesis by linarith
qed

lemma r3: "c < 256 \<Longrightarrow> (b mod 16) * 4 + c div 64 < (64::nat)"
proof -
  assume "c < 256"
  then have "c div 64 < 4" by simp
  moreover have "b mod 16 \<le> 15" by simp
  ultimately show ?thesis by linarith
qed

lemma r4: "(b mod 16) * 4 < (64::nat)" "(a mod 4) * 16 < (64::nat)"
proof -
  have "b mod 16 \<le> 15" by simp
  then show "(b mod 16) * 4 < (64::nat)" by linarith
  have "a mod 4 \<le> 3" by simp
  then show "(a mod 4) * 16 < (64::nat)" by linarith
qed

lemma r5:
  "(a div 4) * 4 + a mod 4 = (a::nat)"
  "(b div 16) * 16 + b mod 16 = (b::nat)"
  "(c div 64) * 64 + c mod 64 = (c::nat)"
  "((b mod 16) * 4) div 4 = (b mod 16 :: nat)"
  "((a mod 4) * 16) div 16 = (a mod 4 :: nat)"
  "((b mod 16) * 4) mod 4 = (0::nat)"
  "((a mod 4) * 16) mod 16 = (0::nat)"
  by simp_all

lemma url_safe_pad: "url_safe 61 = 61"
  by (simp add: url_safe_def)

lemma decode_group:
  assumes "v1 < 64" "v2 < 64" "v3 < 64" "v4 < 64"
  shows "b64url_decode (url_safe (b64_char v1) # url_safe (b64_char v2) #
                        url_safe (b64_char v3) # url_safe (b64_char v4) # rest)
         = [v1 * 4 + v2 div 16, (v2 mod 16) * 16 + v3 div 4, (v3 mod 4) * 64 + v4]
           @ b64url_decode rest"
  using b64_value_char [OF assms(1)] b64_value_char [OF assms(2)]
    b64_value_char [OF assms(3)] b64_value_char [OF assms(4)]
  by simp

lemma decode_two:
  assumes "v1 < 64" "v2 < 64" "v3 < 64"
  shows "b64url_decode [url_safe (b64_char v1), url_safe (b64_char v2),
                        url_safe (b64_char v3), 61]
         = [v1 * 4 + v2 div 16, (v2 mod 16) * 16 + v3 div 4]"
  using b64_value_char [OF assms(1)] b64_value_char [OF assms(2)]
    b64_value_char [OF assms(3)]
  by simp

lemma decode_one:
  assumes "v1 < 64" "v2 < 64"
  shows "b64url_decode [url_safe (b64_char v1), url_safe (b64_char v2), 61, 61]
         = [v1 * 4 + v2 div 16]"
  using b64_value_char [OF assms(1)] b64_value_char [OF assms(2)]
  by simp

lemma b64url_decode_base64_nat:
  "\<forall>x\<in>set xs. x < 256 \<Longrightarrow> b64url_decode (map url_safe (base64_nat xs)) = xs"
proof (induction xs rule: base64_nat.induct)
  case (1 a b c rest)
  then have lt: "a < 256" "b < 256" "c < 256" and r: "\<forall>x\<in>set rest. x < 256"
    by simp_all
  have m: "c mod 64 < 64" by simp
  have "b64url_decode (map url_safe (base64_nat (a # b # c # rest)))
        = [(a div 4) * 4 + ((a mod 4) * 16 + b div 16) div 16,
           (((a mod 4) * 16 + b div 16) mod 16) * 16 + ((b mod 16) * 4 + c div 64) div 4,
           (((b mod 16) * 4 + c div 64) mod 4) * 64 + c mod 64]
          @ b64url_decode (map url_safe (base64_nat rest))"
    using decode_group [OF r1 [OF lt(1)] r2 [OF lt(2)] r3 [OF lt(3)] m, of a b "map url_safe (base64_nat rest)"]
    by simp
  also have "\<dots> = [a, b, c] @ rest"
    by (simp only: q1 [OF lt(2)] q2 [OF lt(2)] q3 [OF lt(3)] q4 [OF lt(3)] r5 "1.IH" [OF r])
  finally show ?case by simp
next
  case (2 a b)
  then have lt: "a < 256" "b < 256" by simp_all
  have "b64url_decode (map url_safe (base64_nat [a, b]))
        = [(a div 4) * 4 + ((a mod 4) * 16 + b div 16) div 16,
           (((a mod 4) * 16 + b div 16) mod 16) * 16 + ((b mod 16) * 4) div 4]"
    using decode_two [OF r1 [OF lt(1)] r2 [OF lt(2)] r4(1), of a b]
    by (simp add: url_safe_pad)
  also have "\<dots> = [a, b]"
    by (simp only: q1 [OF lt(2)] q2 [OF lt(2)] r5)
  finally show ?case .
next
  case (3 a)
  then have lt: "a < 256" by simp
  have "b64url_decode (map url_safe (base64_nat [a]))
        = [(a div 4) * 4 + ((a mod 4) * 16) div 16]"
    using decode_one [OF r1 [OF lt] r4(2), of a]
    by (simp add: url_safe_pad)
  also have "\<dots> = [a]"
    by (simp only: r5)
  finally show ?case .
next
  case 4
  show ?case by simp
qed

lemma encodedContent_url_safe: "encodedContent e s = map url_safe (base64 (deflate e s))"
  by (simp add: encodedContent_def replace_char_def url_safe_def)

lemma b64url_decode_token:
  "b64url_decode (encodedContent e s) = map of_char (deflate e s)"
  unfolding encodedContent_url_safe base64_def
  by (rule b64url_decode_base64_nat) (simp add: of_char_lt)

lemma base64_vectors:
  "base64 (ascii ''f'') = js ''Zg==''"
  "base64 (ascii ''fo'') = js ''Zm8=''"
  "base64 (ascii ''foo'') = js ''Zm9v''"
  "base64 (ascii ''foobar'') = js ''Zm9vYmFy''"
  "base64 (ascii ''>>>???'') = js ''Pj4+Pz8/''"
  by (simp_all add: base64_def ascii_def js_def b64_char_def b64_alphabet_def)

lemma stub_deflate_ascii: "stub_deflate (js ''>>>???'') = ascii ''>>>???''"
  by (simp add: stub_deflate_def utf8_encode_def js_def ascii_def enc_cp_def is_high_def
      is_low_def char_of_def bit_0)

lemma stub_token: "encodedContent (stub_env r) (js ''>>>???'') = js ''Pj4-Pz8_''"
proof -
  have "deflate (stub_env r) (js ''>>>???'') = ascii ''>>>???''"
    by (simp only: stub_env_def stub_deflate_ascii env.simps)
  then have "encodedContent (stub_env r) (js ''>>>???'') =
             replace_char 47 95 (replace_char 43 45 (js ''Pj4+Pz8/''))"
    by (simp only: encodedContent_def base64_vectors)
  also have "\<dots> = js ''Pj4-Pz8_''"
    by (simp add: replace_char_def js_def)
  finally show ?thesis .
qed

text \<open>
  C3. The token is the base64 text of the deflated source in which every \<open>+\<close> (43) has
  become \<open>-\<close> (45) and every \<open>/\<close> (47) has become \<open>_\<close> (95): no \<open>+\<close> and no \<open>/\<close> is
  left, the \<open>=\<close> padding (61) stands where base64 put it, and the length is that of
  base64. That it is a base64 text of the compressed bytes is stated by reading it back: decoding
  the token, with \<open>-\<close> and \<open>_\<close> for the values 62 and 63, gives the bytes that
  \<open>deflate\<close> returned; and \<open>base64\<close> gives the texts of RFC 4648 on its test
  vectors, with one and two padding characters, and \<open>+\<close> and \<open>/\<close> where the
  values 62 and 63 occur. For the text \<open>>>>???\<close>, stored uncompressed, the token is
  \<open>Pj4-Pz8_\<close>. The token is a function of the source text and the compression alone.
\<close>

theorem encodedContent_is_urlsafe_base64:
  "encodedContent e s =
     map (\<lambda>c. if c = 43 then 45 else if c = 47 then 95 else c) (base64 (deflate e s))
   \<and> 43 \<notin> set (encodedContent e s)
   \<and> 47 \<notin> set (encodedContent e s)
   \<and> map (\<lambda>c. c = 61) (encodedContent e s) = map (\<lambda>c. c = 61) (base64 (deflate e s))
   \<and> length (encodedContent e s) = 4 * ((length (deflate e s) + 2) div 3)
   \<and> b64url_decode (encodedContent e s) = map of_char (deflate e s)
   \<and> base64 (ascii ''f'') = js ''Zg==''
   \<and> base64 (ascii ''fo'') = js ''Zm8=''
   \<and> base64 (ascii ''foo'') = js ''Zm9v''
   \<and> base64 (ascii ''foobar'') = js ''Zm9vYmFy''
   \<and> base64 (ascii ''>>>???'') = js ''Pj4+Pz8/''
   \<and> encodedContent (stub_env r) (js ''>>>???'') = js ''Pj4-Pz8_''"
proof -
  have "encodedContent e s =
     map (\<lambda>c. if c = 43 then 45 else if c = 47 then 95 else c) (base64 (deflate e s))
   \<and> 43 \<notin> set (encodedContent e s)
   \<and> 47 \<notin> set (encodedContent e s)
   \<and> map (\<lambda>c. c = 61) (encodedContent e s) = map (\<lambda>c. c = 61) (base64 (deflate e s))
   \<and> length (encodedContent e s) = 4 * ((length (deflate e s) + 2) div 3)"
    by (auto simp: encodedContent_def replace_char_def base64_def length_base64_nat)
  moreover note b64url_decode_token [of e s] base64_vectors stub_token [of r]
  ultimately show ?thesis by blast
qed

section \<open>Validation comes before the request\<close>

lemma getDiagramData_invalid:
  assumes "type opts \<notin> set validTypes \<or> or_default (outputFormat opts) (js ''svg'') \<notin> set validFormats"
  shows "\<exists>m. getDiagramData e opts = (Inl (McpError e InvalidParams m), [])"
  using assms by (auto simp: getDiagramData_def validateDiagramType_def validateOutputFormat_def Let_def)

lemma getDiagramData_valid:
  assumes "type opts \<in> set validTypes" "or_default (outputFormat opts) (js ''svg'') \<in> set validFormats"
  shows "getDiagramData e opts =
     (let fmt = or_default (outputFormat opts) (js ''svg'');
          url = diagram_url (type opts) fmt (encodedContent e (content opts))
      in (case axios_get e url of
            Response status header data \<Rightarrow>
              if 200 \<le> status \<and> status < 300
              then checkResponse e fmt (case scale opts of None \<Rightarrow> Fin 1 | Some x \<Rightarrow> x) header data
              else Inl (httpError e status data)
          | NoResponse msg \<Rightarrow>
              Inl (McpError e InternalError
                    (js ''Failed to fetch diagram from Kroki: '' @ or_default msg (js ''Unknown network error''))),
          [Fetch url]))"
  using assms by (simp add: getDiagramData_def validateDiagramType_def validateOutputFormat_def Let_def)

lemma or_default_Some_nonempty: "f \<noteq> [] \<Longrightarrow> or_default (Some f) d = f"
  by (simp add: or_default_def)

lemma code_McpError: "code (McpError e c m) = c"
  by (simp add: McpError_def)

text \<open>
  C2 (as amended). Both tools answer with an \<open>InvalidParams\<close> error, and send no request
  and touch no file, when the diagram type is not one of the supported types or the output
  format is not one of \<open>svg\<close>, \<open>png\<close>, \<open>pdf\<close>, \<open>jpeg\<close>, \<open>base64\<close>. The output format
  that is checked is the one the tool goes on with: the given \<open>outputFormat\<close> unless it is
  missing or empty, and otherwise \<open>svg\<close> (for the file tool: the extension of the output
  path, and \<open>svg\<close> if there is none).
\<close>

theorem validation_precedes_fetch:
  "(type opts \<notin> set validTypes \<or> or_default (outputFormat opts) (js ''svg'') \<notin> set validFormats
      \<longrightarrow> (\<exists>err. generate_diagram_url e opts = (Inl err, []) \<and> code err = InvalidParams))
   \<and> (type args \<notin> set validTypes \<or>
        or_default (outputFormat args) (or_default (Some (drop 1 (extname e (outputPath args)))) (js ''svg''))
          \<notin> set validFormats
      \<longrightarrow> (\<exists>err. download_diagram e args = (Inl err, []) \<and> code err = InvalidParams))"
proof (intro conjI impI)
  assume bad: "type opts \<notin> set validTypes \<or> or_default (outputFormat opts) (js ''svg'') \<notin> set validFormats"
  then show "\<exists>err. generate_diagram_url e opts = (Inl err, []) \<and> code err = InvalidParams"
    by (auto simp: generate_diagram_url_def generateDiagramUrl_def validateDiagramType_def
        validateOutputFormat_def code_McpError Let_def)
next
  let ?fmt = "or_default (outputFormat args) (or_default (Some (drop 1 (extname e (outputPath args)))) (js ''svg''))"
  let ?o = "\<lparr>type = type args, content = content args, outputFormat = Some ?fmt,
             scale = Some (case scale args of None \<Rightarrow> Fin 1 | Some x \<Rightarrow> x)\<rparr>"
  assume bad: "type args \<notin> set validTypes \<or> ?fmt \<notin> set validFormats"
  have fmt: "or_default (Some ?fmt) (js ''svg'') = ?fmt"
    by (simp add: or_default_def js_def split: option.splits)
  from bad fmt have "type ?o \<notin> set validTypes \<or> or_default (outputFormat ?o) (js ''svg'') \<notin> set validFormats"
    by simp
  from getDiagramData_invalid [OF this, of e]
  obtain m where "getDiagramData e ?o = (Inl (McpError e InvalidParams m), [])" ..
  then show "\<exists>err. download_diagram e args = (Inl err, []) \<and> code err = InvalidParams"
    by (simp add: download_diagram_def Let_def code_McpError)
qed

theorem validation_precedes_fetch_witness:
  "(\<exists>err. generate_diagram_url (stub_env (NoResponse None))
             \<lparr>type = js ''flowchart'', content = js ''graph TD; A-->B;'', outputFormat = Some (js ''svg'')\<rparr>
           = (Inl err, []) \<and> code err = InvalidParams)
   \<and> (\<exists>err. download_diagram (stub_env (NoResponse None))
             \<lparr>type = js ''mermaid'', content = js ''graph TD; A-->B;'', outputFormat = None,
              scale = None, outputPath = js ''/tmp/out.gif''\<rparr>
           = (Inl err, []) \<and> code err = InvalidParams)"
proof -
  let ?e = "stub_env (NoResponse None)"
  let ?o = "\<lparr>type = js ''flowchart'', content = js ''graph TD; A-->B;'', outputFormat = Some (js ''svg'')\<rparr>"
  let ?a = "\<lparr>type = js ''mermaid'', content = js ''graph TD; A-->B;'', outputFormat = None,
              scale = None, outputPath = js ''/tmp/out.gif''\<rparr>"
  have h1: "type ?o \<notin> set validTypes \<or> or_default (outputFormat ?o) (js ''svg'') \<notin> set validFormats"
    by (simp add: validTypes_def js_def)
  have h2: "type ?a \<notin> set validTypes \<or>
        or_default (outputFormat ?a) (or_default (Some (drop 1 (extname ?e (outputPath ?a)))) (js ''svg''))
          \<notin> set validFormats"
    by (simp add: validFormats_def js_def stub_env_def or_default_def stub_extname_def
        stub_basename_def Let_def)
  from validation_precedes_fetch [of ?o ?e ?a] h1 h2 show ?thesis
    by blast
qed

text \<open>
  The claim as stated fails: the empty string is not one of the five formats, and a request
  with this output format is not rejected but fetched as \<open>svg\<close>.
\<close>

theorem empty_format_is_fetched:
  "[] \<notin> set validFormats
   \<and> snd (generate_diagram_url (stub_env (NoResponse None))
            \<lparr>type = js ''mermaid'', content = js ''graph TD; A-->B;'', outputFormat = Some []\<rparr>)
     = [Fetch (diagram_url (js ''mermaid'') (js ''svg'')
                (encodedContent (stub_env (NoResponse None)) (js ''graph TD; A-->B;'')))]"
proof -
  let ?e = "stub_env (NoResponse None)"
  have v: "js ''mermaid'' \<in> set validTypes" "js ''svg'' \<in> set validFormats"
    by (simp_all add: validTypes_def validFormats_def)
  have a: "axios_get ?e u = NoResponse None" for u
    by (simp add: stub_env_def)
  have ne: "js ''svg'' \<noteq> js ''base64''" by (simp add: js_def)
  show ?thesis
    using v ne
    by (simp add: generate_diagram_url_def generateDiagramUrl_def validateDiagramType_def
        validateOutputFormat_def getDiagramData_def Let_def or_default_def a validFormats_def js_def)
qed

section \<open>Evaluating the model\<close>

text \<open>The defining equations that the simplifier needs to run the model on a concrete
  input.\<close>

lemmas text_defs = js_def ascii_def trim_def startsWith_def is_space_def toLowerCase_def lower_unit_def
  utf8_decode_def utf8_encode_def is_cont_def emit_cp_def enc_cp_def is_high_def is_low_def
  or_default_def

lemmas re_defs = match_def test_def group_def group_text_def lit_eq_def canon_def
  any_cls_def dot_cls_def not_gt_def not_quote_def space_cls_def digit_dot_def
  title_re_def body_re_def unable_re_def pre_re_def tag_re_def spaces_re_def error_text_re_def
  svg_re_def attr_re_def

lemma floor_rat_numeral: "\<lfloor>(numeral a :: rat) / numeral b\<rfloor> = numeral a div numeral b"
  using floor_divide_of_int_eq [of "numeral a" "numeral b", where ?'a = rat] by simp

lemmas num_defs = parseFloat_def take_sign_def is_digit_def digits_val_def pow10_def pow2_def
  round_double_def round_half_even_def binexp_def bitlen_def compute_floorlog isNaN_def
  toFixed2_def show_nat.simps floor_rat_numeral

lemmas byte_defs = char_of_def bit_0

lemma valid_mermaid_svg:
  "js ''mermaid'' \<in> set validTypes" "js ''svg'' \<in> set validFormats" "js ''base64'' \<in> set validFormats"
  by (simp_all add: validTypes_def validFormats_def)

section \<open>Responses with a status outside 2xx\<close>

lemma startsWith_append: "startsWith (p @ b) p"
  by (simp add: startsWith_def)

lemma includes_str_here: "includes_str (p @ b) p"
  by (cases "p @ b") (simp_all add: startsWith_def, metis append_eq_conv_conj)

lemma includes_str_append: "includes_str (a @ p @ b) p"
proof (induction a)
  case Nil
  show ?case using includes_str_here [of p b] by simp
next
  case (Cons x a)
  then show ?case by simp
qed

lemma show_nat_400: "show_nat 400 = [52, 48, 48]"
  by (simp add: show_nat.simps)

lemma syntax_error_text_400:
  "syntax_error_text =
     ([0x30C0, 0x30A4, 0x30A2, 0x30B0, 0x30E9, 0x30E0, 0x306E, 0x8A18, 0x8FF0, 0x306B, 0x30A8,
       0x30E9, 0x30FC, 0x304C, 0x3042, 0x308B, 0x3088, 0x3046, 0x3067, 0x3059] @ js '' (Kroki HTTP '')
     @ show_nat 400 @ (js '')'' @ [0x3002, 10])"
  by (simp add: syntax_error_text_def show_nat_400 js_def)

lemma userMessage_has_status: "includes_str (userMessage status body) (show_nat status)"
proof (cases "status = 400")
  case True
  have "includes_str (x @ show_nat 400 @ y @ z) (show_nat 400)" for x y z
    using includes_str_append [of x "show_nat 400" "y @ z"] by simp
  with True show ?thesis
    by (simp add: userMessage_def syntax_error_text_400 del: append_assoc) (simp)
next
  case False
  then show ?thesis
    using includes_str_append [of request_failed_text "show_nat status"]
    by (simp add: userMessage_def)
qed

lemma userMessage_snippet:
  assumes "utf8_decode body \<noteq> []" "length (utf8_decode body) < 500"
  shows "\<exists>a b. userMessage status body = a @ trim (utf8_decode body) @ b"
proof -
  from assms have k: "krokiMessage body = trim (utf8_decode body)"
    by (simp add: krokiMessage_def)
  show ?thesis
  proof (cases "trim (utf8_decode body) = []")
    case True
    then show ?thesis by (metis append_Nil)
  next
    case False
    show ?thesis
    proof (cases "status = 400")
      case True
      with False k have "userMessage status body =
          (syntax_error_text @ kroki_details_open) @ trim (utf8_decode body) @ (kroki_details_close @ check_description)"
        by (simp add: userMessage_def)
      then show ?thesis by blast
    next
      case s: False
      with False k have "userMessage status body =
          (request_failed_text @ show_nat status @ js '')'' @ kroki_message_label) @ trim (utf8_decode body) @ []"
        by (simp add: userMessage_def)
      then show ?thesis by blast
    qed
  qed
qed

lemma userMessage_400_start: "\<exists>b. userMessage 400 body = syntax_error_text @ b"
  by (simp add: userMessage_def)

lemma userMessage_other_start:
  "status \<noteq> 400 \<Longrightarrow> \<exists>b. userMessage status body = request_failed_text @ show_nat status @ js '')'' @ b"
  by (simp add: userMessage_def)

lemma userMessage_distinct: "status \<noteq> 400 \<Longrightarrow> userMessage 400 body' \<noteq> userMessage status body"
proof -
  assume s: "status \<noteq> 400"
  have "hd (userMessage 400 body') = 0x30C0"
    by (simp add: userMessage_def syntax_error_text_def)
  moreover from s have "hd (userMessage status body) = 75"
    by (simp add: userMessage_def request_failed_text_def js_def)
  ultimately show ?thesis by auto
qed

text \<open>
  C7. When the request is answered, a status from 200 to 299 sends the response on to the
  checks of its content; every other status ends in an error whose message carries the
  status number and, when the decoded body is not empty and shorter than 500, the trimmed
  body. Status 400 gives an \<open>InvalidParams\<close> error whose message opens with the text on a
  likely syntax error; every other status gives an \<open>InternalError\<close> whose message opens
  with "request failed" and the status, and differs from every message for status 400.
\<close>

theorem transport_status_handling:
  assumes "type opts \<in> set validTypes"
    and "or_default (outputFormat opts) (js ''svg'') \<in> set validFormats"
    and "axios_get e (diagram_url (type opts) (or_default (outputFormat opts) (js ''svg''))
                       (encodedContent e (content opts))) = Response status header body"
  shows "(200 \<le> status \<and> status < 300 \<longrightarrow>
            fst (getDiagramData e opts) =
              checkResponse e (or_default (outputFormat opts) (js ''svg''))
                (case scale opts of None \<Rightarrow> Fin 1 | Some x \<Rightarrow> x) header body)
       \<and> (\<not> (200 \<le> status \<and> status < 300) \<longrightarrow>
            fst (getDiagramData e opts) =
              Inl (McpError e (if status = 400 then InvalidParams else InternalError)
                    (userMessage status body)))
       \<and> includes_str (userMessage status body) (show_nat status)
       \<and> (utf8_decode body \<noteq> [] \<and> length (utf8_decode body) < 500 \<longrightarrow>
            (\<exists>a b. userMessage status body = a @ trim (utf8_decode body) @ b))
       \<and> (\<exists>b. userMessage 400 body = syntax_error_text @ b)
       \<and> (status \<noteq> 400 \<longrightarrow>
            (\<exists>b. userMessage status body = request_failed_text @ show_nat status @ js '')'' @ b)
            \<and> (\<forall>body'. userMessage 400 body' \<noteq> userMessage status body))"
proof -
  note g = getDiagramData_valid [OF assms(1,2), of e]
  have a: "200 \<le> status \<and> status < 300 \<longrightarrow>
            fst (getDiagramData e opts) =
              checkResponse e (or_default (outputFormat opts) (js ''svg''))
                (case scale opts of None \<Rightarrow> Fin 1 | Some x \<Rightarrow> x) header body"
    using assms(3) by (simp add: g Let_def)
  have b: "\<not> (200 \<le> status \<and> status < 300) \<longrightarrow>
            fst (getDiagramData e opts) =
              Inl (McpError e (if status = 400 then InvalidParams else InternalError)
                    (userMessage status body))"
    using assms(3) by (simp add: g Let_def httpError_def)
  show ?thesis
    using a b userMessage_has_status [of status body] userMessage_snippet [of body status]
      userMessage_400_start [of body] userMessage_other_start [of status body]
      userMessage_distinct [of status _ body]
    by blast
qed


theorem transport_status_handling_witness:
  "fst (getDiagramData (stub_env (Response 500 None (ascii ''internal error'')))
         \<lparr>type = js ''mermaid'', content = js ''graph TD; A-->B;'',
          outputFormat = Some (js ''svg''), scale = None\<rparr>)
     = Inl (McpError (stub_env (Response 500 None (ascii ''internal error''))) InternalError
             (request_failed_text @ js ''500)'' @ kroki_message_label @ js ''internal error''))
   \<and> userMessage 400 (ascii ''internal error'') \<noteq> userMessage 500 (ascii ''internal error'')"
proof -
  let ?e = "stub_env (Response 500 None (ascii ''internal error''))"
  let ?o = "\<lparr>type = js ''mermaid'', content = js ''graph TD; A-->B;'',
             outputFormat = Some (js ''svg''), scale = None\<rparr>"
  have h1: "type ?o \<in> set validTypes" by (simp add: valid_mermaid_svg)
  have h2: "or_default (outputFormat ?o) (js ''svg'') \<in> set validFormats"
    by (simp add: or_default_def valid_mermaid_svg)
  have h3: "axios_get ?e (diagram_url (type ?o) (or_default (outputFormat ?o) (js ''svg''))
                       (encodedContent ?e (content ?o))) = Response 500 None (ascii ''internal error'')"
    by (simp add: stub_env_def)
  have m: "userMessage 500 (ascii ''internal error'')
             = request_failed_text @ js ''500)'' @ kroki_message_label @ js ''internal error''"
    by (simp add: userMessage_def krokiMessage_def text_defs show_nat.simps Let_def)
  from transport_status_handling [OF h1 h2 h3] m show ?thesis
    by simp
qed

section \<open>Generating a link\<close>

lemma valid_format_nonempty: "f \<in> set validFormats \<Longrightarrow> f \<noteq> []"
  by (auto simp: validFormats_def js_def)

lemma not_html_svg_doc:
  "\<not> isHtmlResponse (js ''image/svg+xml'') (ascii ''<svg><text>A</text></svg>'')"
  by (simp add: isHtmlResponse_def text_defs)

lemma no_error_svg_doc:
  "errorTextMatch (utf8_decode (ascii ''<svg><text>A</text></svg>'')) = None"
  by (simp add: errorTextMatch_def text_defs re_defs Let_def)

lemma checkResponse_svg_doc:
  "fmt = js ''svg'' \<or> fmt = js ''base64'' \<Longrightarrow> \<not> gt_one k \<Longrightarrow>
   checkResponse e fmt k (Some (js ''image/svg+xml'')) (ascii ''<svg><text>A</text></svg>'')
     = Inr (ascii ''<svg><text>A</text></svg>'', fmt)"
proof -
  have ct: "or_default (map_option toLowerCase (Some (js ''image/svg+xml''))) [] = js ''image/svg+xml''"
    by (simp add: text_defs)
  have ne: "ascii ''<svg><text>A</text></svg>'' \<noteq> []" by (simp add: ascii_def)
  assume "fmt = js ''svg'' \<or> fmt = js ''base64''" "\<not> gt_one k"
  then show ?thesis
    unfolding checkResponse_def Let_def ct
    by (simp only: not_html_svg_doc no_error_svg_doc ne if_False if_True option.case simp_thms)
qed

lemma getDiagramData_svg_ok:
  assumes "t \<in> set validTypes" "f = js ''svg'' \<or> f = js ''base64''" "\<not> gt_one (case k of None \<Rightarrow> Fin 1 | Some x \<Rightarrow> x)"
  shows "fst (getDiagramData (stub_env svg_ok) \<lparr>type = t, content = c, outputFormat = Some f, scale = k\<rparr>)
         = Inr (ascii ''<svg><text>A</text></svg>'', f)"
proof -
  let ?o = "\<lparr>type = t, content = c, outputFormat = Some f, scale = k\<rparr>"
  from assms(2) have fv: "f \<in> set validFormats"
    using valid_mermaid_svg by auto
  then have f: "or_default (outputFormat ?o) (js ''svg'') = f" "f \<in> set validFormats"
    using valid_format_nonempty [of f] by (simp_all add: or_default_def)
  have a: "axios_get (stub_env svg_ok) u = svg_ok" for u
    by (simp add: stub_env_def)
  show ?thesis
    using getDiagramData_valid [of ?o "stub_env svg_ok"] assms f checkResponse_svg_doc [of f _ "stub_env svg_ok"]
    by (simp add: Let_def a) (simp add: svg_ok_def)
qed

text \<open>
  C8. When the type and the output format are valid and the probe succeeds, the link
  tool returns the base address followed by \<open>/type/format/token\<close>, where the token is the
  encoder's output for the content; the one request it sends asks for the same path,
  except that for the output format \<open>base64\<close> the probe asks for \<open>svg\<close> while the link
  returned still says \<open>base64\<close>. For type \<open>mermaid\<close>, content \<open>graph TD; A-->B;\<close> and
  format \<open>svg\<close> the link ends in \<open>/mermaid/svg/\<close> and the token.
\<close>

theorem link_generation:
  assumes "type opts \<in> set validTypes"
    and "or_default (outputFormat opts) (js ''svg'') = fmt"
    and "fmt \<in> set validFormats"
    and "checkFormat = (if fmt = js ''base64'' then js ''svg'' else fmt)"
    and "fst (getDiagramData e \<lparr>type = type opts, content = content opts,
                                 outputFormat = Some checkFormat, scale = None\<rparr>) = Inr r"
  shows "generateDiagramUrl e opts =
           (Inr (KROKI_BASE_URL @ js ''/'' @ type opts @ js ''/'' @ fmt @ js ''/'' @
                 encodedContent e (content opts)),
            [Fetch (KROKI_BASE_URL @ js ''/'' @ type opts @ js ''/'' @ checkFormat @ js ''/'' @
                    encodedContent e (content opts))])
       \<and> generate_diagram_url e opts =
           (Inr (url_checked_text @ KROKI_BASE_URL @ js ''/'' @ type opts @ js ''/'' @ fmt @ js ''/'' @
                 encodedContent e (content opts)),
            [Fetch (KROKI_BASE_URL @ js ''/'' @ type opts @ js ''/'' @ checkFormat @ js ''/'' @
                    encodedContent e (content opts))])"
proof -
  let ?p = "\<lparr>type = type opts, content = content opts, outputFormat = Some checkFormat, scale = None\<rparr>"
  have cf: "checkFormat \<in> set validFormats"
    using assms(3,4) by (simp add: valid_mermaid_svg)
  then have d: "or_default (outputFormat ?p) (js ''svg'') = checkFormat"
    using valid_format_nonempty [of checkFormat] by (simp add: or_default_def)
  have "snd (getDiagramData e ?p) =
          [Fetch (diagram_url (type opts) checkFormat (encodedContent e (content opts)))]"
    using getDiagramData_valid [of ?p e] assms(1) cf d by (simp add: Let_def)
  with assms(5) have g: "getDiagramData e ?p =
      (Inr r, [Fetch (diagram_url (type opts) checkFormat (encodedContent e (content opts)))])"
    by (metis prod.collapse)
  have u: "generateDiagramUrl e opts =
           (Inr (diagram_url (type opts) fmt (encodedContent e (content opts))),
            [Fetch (diagram_url (type opts) checkFormat (encodedContent e (content opts)))])"
    using assms(1,2,3,4) g
    by (simp add: generateDiagramUrl_def validateDiagramType_def validateOutputFormat_def Let_def)
  then show ?thesis
    by (simp add: generate_diagram_url_def diagram_url_def)
qed

theorem link_generation_witness:
  "generateDiagramUrl (stub_env svg_ok)
     \<lparr>type = js ''mermaid'', content = js ''graph TD; A-->B;'', outputFormat = Some (js ''svg'')\<rparr>
   = (Inr (KROKI_BASE_URL @ js ''/mermaid/svg/'' @ encodedContent (stub_env svg_ok) (js ''graph TD; A-->B;'')),
      [Fetch (KROKI_BASE_URL @ js ''/mermaid/svg/'' @ encodedContent (stub_env svg_ok) (js ''graph TD; A-->B;''))])
   \<and> generateDiagramUrl (stub_env svg_ok)
     \<lparr>type = js ''mermaid'', content = js ''graph TD; A-->B;'', outputFormat = Some (js ''base64'')\<rparr>
   = (Inr (KROKI_BASE_URL @ js ''/mermaid/base64/'' @ encodedContent (stub_env svg_ok) (js ''graph TD; A-->B;'')),
      [Fetch (KROKI_BASE_URL @ js ''/mermaid/svg/'' @ encodedContent (stub_env svg_ok) (js ''graph TD; A-->B;''))])"
proof -
  let ?e = "stub_env svg_ok"
  let ?c = "js ''graph TD; A-->B;''"
  let ?o1 = "\<lparr>type = js ''mermaid'', content = ?c, outputFormat = Some (js ''svg'')\<rparr>"
  let ?o2 = "\<lparr>type = js ''mermaid'', content = ?c, outputFormat = Some (js ''base64'')\<rparr>"
  have ne: "js ''svg'' \<noteq> js ''base64''" "js ''base64'' \<noteq> []" "js ''svg'' \<noteq> []"
    by (simp_all add: js_def)
  have p: "fst (getDiagramData ?e \<lparr>type = type ?o1, content = content ?o1,
                  outputFormat = Some (js ''svg''), scale = None\<rparr>)
           = Inr (ascii ''<svg><text>A</text></svg>'', js ''svg'')"
    using getDiagramData_svg_ok [of "js ''mermaid''" "js ''svg''" None ?c]
    by (simp add: valid_mermaid_svg)
  have 1: "generateDiagramUrl ?e ?o1 =
      (Inr (KROKI_BASE_URL @ js ''/'' @ js ''mermaid'' @ js ''/'' @ js ''svg'' @ js ''/'' @ encodedContent ?e ?c),
       [Fetch (KROKI_BASE_URL @ js ''/'' @ js ''mermaid'' @ js ''/'' @ js ''svg'' @ js ''/'' @ encodedContent ?e ?c)])"
    using link_generation [of ?o1 "js ''svg''" "js ''svg''" ?e "(ascii ''<svg><text>A</text></svg>'', js ''svg'')"] p ne
    by (simp add: valid_mermaid_svg or_default_def)
  have 2: "generateDiagramUrl ?e ?o2 =
      (Inr (KROKI_BASE_URL @ js ''/'' @ js ''mermaid'' @ js ''/'' @ js ''base64'' @ js ''/'' @ encodedContent ?e ?c),
       [Fetch (KROKI_BASE_URL @ js ''/'' @ js ''mermaid'' @ js ''/'' @ js ''svg'' @ js ''/'' @ encodedContent ?e ?c)])"
    using link_generation [of ?o2 "js ''base64''" "js ''svg''" ?e "(ascii ''<svg><text>A</text></svg>'', js ''svg'')"] p ne
    by (simp add: valid_mermaid_svg or_default_def)
  have j: "js ''/'' @ js ''mermaid'' @ js ''/'' @ js ''svg'' @ js ''/'' @ x = js ''/mermaid/svg/'' @ x"
    "js ''/'' @ js ''mermaid'' @ js ''/'' @ js ''base64'' @ js ''/'' @ x = js ''/mermaid/base64/'' @ x" for x
    by (simp_all add: js_def)
  from 1 2 show ?thesis
    by (simp only: j)
qed


section \<open>No scaling up to a factor of one\<close>

lemma svg_sized_checks:
  "\<not> isHtmlResponse (js ''image/svg+xml'') svg_sized"
  "errorTextMatch (utf8_decode svg_sized) = None"
  "svg_sized \<noteq> []"
  by (simp_all add: svg_sized_def isHtmlResponse_def errorTextMatch_def text_defs re_defs Let_def)

lemma checkResponse_svg_sized:
  "\<not> gt_one k \<Longrightarrow>
   checkResponse e (js ''svg'') k (Some (js ''image/svg+xml'')) svg_sized = Inr (svg_sized, js ''svg'')"
proof -
  have ct: "or_default (map_option toLowerCase (Some (js ''image/svg+xml''))) [] = js ''image/svg+xml''"
    by (simp add: text_defs)
  assume "\<not> gt_one k"
  then show ?thesis
    unfolding checkResponse_def Let_def ct
    by (simp only: svg_sized_checks if_False if_True option.case simp_thms)
qed

lemma getDiagramData_svg_sized:
  assumes "\<not> gt_one k"
  shows "fst (getDiagramData (stub_env (Response 200 (Some (js ''image/svg+xml'')) svg_sized))
              \<lparr>type = js ''mermaid'', content = c, outputFormat = Some (js ''svg''), scale = Some k\<rparr>)
         = Inr (svg_sized, js ''svg'')"
proof -
  let ?e = "stub_env (Response 200 (Some (js ''image/svg+xml'')) svg_sized)"
  let ?o = "\<lparr>type = js ''mermaid'', content = c, outputFormat = Some (js ''svg''), scale = Some k\<rparr>"
  have f: "or_default (outputFormat ?o) (js ''svg'') = js ''svg''"
    by (simp add: or_default_def)
  have a: "axios_get ?e u = Response 200 (Some (js ''image/svg+xml'')) svg_sized" for u
    by (simp add: stub_env_def)
  show ?thesis
    using getDiagramData_valid [of ?o ?e] f checkResponse_svg_sized [OF assms, of ?e]
    by (simp add: Let_def a valid_mermaid_svg)
qed

lemma scaled_half:
  \<open>applyScale e (Fin (1/2)) (js ''<svg width="100px" height="50px"></svg>'')
     = js ''<svg width="50.00px" height="25.00px"></svg>''\<close>
  by (simp add: applyScale_def scaled_attr_def str_replace_def text_defs re_defs num_defs Let_def)

text \<open>
  C9 (as amended). Scaling is applied for a factor above 1 only. For every scale up to 1,
  so for every scale from 0.1 to 1.0, a successful result carries the body of the response
  unchanged, whatever the output format.
\<close>

theorem no_scaling_up_to_one:
  assumes "type opts \<in> set validTypes"
    and "or_default (outputFormat opts) (js ''svg'') \<in> set validFormats"
    and "axios_get e (diagram_url (type opts) (or_default (outputFormat opts) (js ''svg''))
                       (encodedContent e (content opts))) = Response status header body"
    and "scale opts = Some (Fin q)" and "q \<le> 1"
    and "fst (getDiagramData e opts) = Inr (d, f)"
  shows "d = body \<and> f = or_default (outputFormat opts) (js ''svg'')"
proof -
  from assms(3,6) have ok: "200 \<le> status \<and> status < 300"
    using getDiagramData_valid [OF assms(1,2), of e]
    by (auto simp: Let_def split: if_splits)
  with assms(3,4,6) have "checkResponse e (or_default (outputFormat opts) (js ''svg'')) (Fin q) header body = Inr (d, f)"
    using getDiagramData_valid [OF assms(1,2), of e]
    by (simp add: Let_def)
  with assms(5) show ?thesis
    by (auto simp: checkResponse_def Let_def split: if_splits option.splits)
qed


theorem no_scaling_up_to_one_witness:
  "(1 / 4 :: rat) \<le> 1
   \<and> fst (getDiagramData (stub_env (Response 200 (Some (js ''image/svg+xml'')) svg_sized))
            \<lparr>type = js ''mermaid'', content = js ''graph TD; A-->B;'',
             outputFormat = Some (js ''svg''), scale = Some (Fin (1 / 4))\<rparr>)
       = Inr (svg_sized, js ''svg'')"
proof -
  let ?e = "stub_env (Response 200 (Some (js ''image/svg+xml'')) svg_sized)"
  let ?o = "\<lparr>type = js ''mermaid'', content = js ''graph TD; A-->B;'',
             outputFormat = Some (js ''svg''), scale = Some (Fin (1 / 4))\<rparr>"
  have h1: "type ?o \<in> set validTypes" by (simp add: valid_mermaid_svg)
  have h2: "or_default (outputFormat ?o) (js ''svg'') \<in> set validFormats"
    by (simp add: or_default_def valid_mermaid_svg)
  have h3: "axios_get ?e (diagram_url (type ?o) (or_default (outputFormat ?o) (js ''svg''))
                       (encodedContent ?e (content ?o)))
            = Response 200 (Some (js ''image/svg+xml'')) svg_sized"
    by (simp add: stub_env_def)
  have h4: "scale ?o = Some (Fin (1 / 4))" by simp
  have h5: "(1 / 4 :: rat) \<le> 1" by simp
  obtain d f where h6: "fst (getDiagramData ?e ?o) = Inr (d, f)"
    using getDiagramData_svg_sized [of "Fin (1 / 4)" "js ''graph TD; A-->B;''"] by simp
  from no_scaling_up_to_one [OF h1 h2 h3 h4 h5 h6] h6 h5 show ?thesis
    by (simp add: or_default_def)
qed

text \<open>
  The claim as stated fails: with scale 0.5 the SVG comes back with its width of 100px
  and height of 50px, although the rewriting of the attributes, had it been applied, would
  have given 50.00px and 25.00px.
\<close>

theorem shrinking_is_not_applied:
  \<open>fst (getDiagramData (stub_env (Response 200 (Some (js ''image/svg+xml''))
                                   (ascii ''<svg width="100px" height="50px"></svg>'')))
         \<lparr>type = js ''mermaid'', content = js ''graph TD; A-->B;'',
          outputFormat = Some (js ''svg''), scale = Some (Fin (1 / 2))\<rparr>)
     = Inr (ascii ''<svg width="100px" height="50px"></svg>'', js ''svg'')
   \<and> utf8_encode (applyScale (stub_env (Response 200 (Some (js ''image/svg+xml''))
                                             (ascii ''<svg width="100px" height="50px"></svg>'')))
                   (Fin (1 / 2)) (utf8_decode (ascii ''<svg width="100px" height="50px"></svg>'')))
     = ascii ''<svg width="50.00px" height="25.00px"></svg>''\<close>
proof -
  have a: \<open>utf8_decode (ascii ''<svg width="100px" height="50px"></svg>'')
           = js ''<svg width="100px" height="50px"></svg>''\<close>
    by (simp add: text_defs)
  have b: \<open>utf8_encode (js ''<svg width="50.00px" height="25.00px"></svg>'')
           = ascii ''<svg width="50.00px" height="25.00px"></svg>''\<close>
    by (simp add: text_defs byte_defs)
  have c: "\<not> gt_one (Fin (1 / 2))" by simp
  show ?thesis
    using getDiagramData_svg_sized [OF c, of "js ''graph TD; A-->B;''"]
    by (simp only: a scaled_half b) (simp add: svg_sized_def)
qed

section \<open>Saving a diagram to a file\<close>




lemma checkResponse_html:
  "isHtmlResponse (or_default (map_option toLowerCase header) []) data \<Longrightarrow>
   checkResponse e fmt k header data = Inl (htmlError e data)"
  by (simp add: checkResponse_def Let_def)






section \<open>What the matcher finds\<close>

text \<open>The ways a pattern matches at the start of a text, pattern by pattern, and what the
  search for the leftmost match returns.\<close>

lemma matches_Lit_iff:
  "(s', c') \<in> set (matches ic (Lit l) (s, c)) \<longleftrightarrow>
     c' = c \<and> (\<exists>m. s = m @ s' \<and> length m = length l \<and> lit_eq ic m l)"
proof
  assume "(s', c') \<in> set (matches ic (Lit l) (s, c))"
  then have a: "length l \<le> length s" "lit_eq ic (take (length l) s) l" "s' = drop (length l) s" "c' = c"
    by (auto split: if_splits)
  then have "s = take (length l) s @ s' \<and> length (take (length l) s) = length l"
    by simp
  with a show "c' = c \<and> (\<exists>m. s = m @ s' \<and> length m = length l \<and> lit_eq ic m l)"
    by blast
next
  assume "c' = c \<and> (\<exists>m. s = m @ s' \<and> length m = length l \<and> lit_eq ic m l)"
  then show "(s', c') \<in> set (matches ic (Lit l) (s, c))"
    by auto
qed

lemma take_takeWhile:
  "i \<le> length (takeWhile P s) \<Longrightarrow> \<forall>x \<in> set (take i s). P x"
proof (induction s arbitrary: i)
  case Nil
  then show ?case by simp
next
  case (Cons a s)
  then show ?case
    by (cases i) (auto split: if_splits)
qed

lemma matches_Rep_iff:
  "(s', c') \<in> set (matches ic (Rep k n g) (s, c)) \<longleftrightarrow>
     c' = c \<and> (\<exists>m. s = m @ s' \<and> n \<le> length m \<and> (\<forall>x \<in> set m. in_cls k x))"
proof
  assume "(s', c') \<in> set (matches ic (Rep k n g) (s, c))"
  then obtain i where i: "n \<le> i" "i \<le> length (takeWhile (in_cls k) s)" "s' = drop i s" "c' = c"
    by (auto simp: Let_def split: if_splits)
  from i(2) have len: "i \<le> length s"
    by (meson le_trans length_takeWhile_le)
  have "s = take i s @ s'" using i(3) by simp
  moreover have "n \<le> length (take i s)" using i(1) len by simp
  moreover have "\<forall>x \<in> set (take i s). in_cls k x" using take_takeWhile [OF i(2)] .
  ultimately show "c' = c \<and> (\<exists>m. s = m @ s' \<and> n \<le> length m \<and> (\<forall>x \<in> set m. in_cls k x))"
    using i(4) by blast
next
  assume "c' = c \<and> (\<exists>m. s = m @ s' \<and> n \<le> length m \<and> (\<forall>x \<in> set m. in_cls k x))"
  then obtain m where m: "c' = c" "s = m @ s'" "n \<le> length m" "\<forall>x \<in> set m. in_cls k x"
    by blast
  then have "takeWhile (in_cls k) s = m @ takeWhile (in_cls k) s'"
    by (simp add: takeWhile_append2)
  then have "length m \<le> length (takeWhile (in_cls k) s)" by simp
  with m(3) have "length m \<in> set [n ..< Suc (length (takeWhile (in_cls k) s))]"
    by auto
  moreover have "drop (length m) s = s'" using m(2) by simp
  ultimately have "(s', c) \<in> (\<lambda>i. (drop i s, c)) ` set [n ..< Suc (length (takeWhile (in_cls k) s))]"
    by (metis (mono_tags, lifting) image_eqI)
  with m(1) show "(s', c') \<in> set (matches ic (Rep k n g) (s, c))"
    by (simp add: Let_def)
qed

lemma matches_Seq_iff:
  "(s', c') \<in> set (matches ic (Seq a b) st) \<longleftrightarrow>
     (\<exists>s1 c1. (s1, c1) \<in> set (matches ic a st) \<and> (s', c') \<in> set (matches ic b (s1, c1)))"
  by auto

lemma matches_Alt_iff:
  "(s', c') \<in> set (matches ic (Alt a b) st) \<longleftrightarrow>
     (s', c') \<in> set (matches ic a st) \<or> (s', c') \<in> set (matches ic b st)"
  by auto

lemma matches_Group_iff:
  "(s', c') \<in> set (matches ic (Group g r) (s, c)) \<longleftrightarrow>
     (\<exists>c''. (s', c'') \<in> set (matches ic r (s, c)) \<and> c' = (g, take (length s - length s') s) # c'')"
  by auto


lemma search_None_iff:
  "search ic r pre s = None \<longleftrightarrow> (\<forall>a b. s = a @ b \<longrightarrow> matches ic r (b, []) = [])"
proof (induction s arbitrary: pre)
  case Nil
  show ?case
    by (auto split: list.splits)
next
  case (Cons x xs)
  show ?case
  proof (cases "matches ic r (x # xs, [])")
    case Nil
    have "(\<forall>a b. x # xs = a @ b \<longrightarrow> matches ic r (b, []) = []) \<longleftrightarrow>
          (\<forall>a b. xs = a @ b \<longrightarrow> matches ic r (b, []) = [])"
    proof
      assume h: "\<forall>a b. x # xs = a @ b \<longrightarrow> matches ic r (b, []) = []"
      show "\<forall>a b. xs = a @ b \<longrightarrow> matches ic r (b, []) = []"
      proof (intro allI impI)
        fix a b assume "xs = a @ b"
        then have "x # xs = (x # a) @ b" by simp
        with h show "matches ic r (b, []) = []" by blast
      qed
    next
      assume h: "\<forall>a b. xs = a @ b \<longrightarrow> matches ic r (b, []) = []"
      show "\<forall>a b. x # xs = a @ b \<longrightarrow> matches ic r (b, []) = []"
      proof (intro allI impI)
        fix a b assume ab: "x # xs = a @ b"
        show "matches ic r (b, []) = []"
        proof (cases a)
          case Nil
          with ab \<open>matches ic r (x # xs, []) = []\<close> show ?thesis by simp
        next
          case (Cons y ys)
          with ab have "xs = ys @ b" by simp
          with h show ?thesis by blast
        qed
      qed
    qed
    with Nil Cons.IH [of "pre @ [x]"] show ?thesis by simp
  next
    case (Cons p ps)
    obtain rest c where p: "p = (rest, c)" by (cases p)
    have "x # xs = [] @ (x # xs)" by simp
    with Cons have "\<not> (\<forall>a b. x # xs = a @ b \<longrightarrow> matches ic r (b, []) = [])"
      by (metis list.distinct(1))
    with Cons p show ?thesis by simp
  qed
qed

lemma lit_eq_length: "lit_eq ic a b \<Longrightarrow> length a = length b"
  by (auto simp: lit_eq_def split: if_splits dest: map_eq_imp_length_eq)

lemma lit_eq_gt: "lit_eq ic m [62] \<longleftrightarrow> m = [62]"
  by (cases m) (auto simp: lit_eq_def canon_def split: if_splits)

lemma in_not_gt: "in_cls not_gt x \<longleftrightarrow> x \<noteq> 62"
  by (auto simp: not_gt_def)

lemma in_any: "in_cls any_cls x"
  by (simp add: any_cls_def)

lemma element_re_iff:
  "(s', c') \<in> set (matches True (element_re T L CL g) (s, [])) \<longleftrightarrow>
     (\<exists>t x l y c cl. s = t @ x @ l @ y @ [62] @ c @ cl @ s' \<and>
        lit_eq True t T \<and> 62 \<notin> set x \<and> lit_eq True l L \<and> 62 \<notin> set y \<and>
        lit_eq True cl CL \<and> c' = [(g, c)])"
proof
  assume "(s', c') \<in> set (matches True (element_re T L CL g) (s, []))"
  then obtain s1 c1 s2 c2 s3 c3 s4 c4 s5 c5 s6 c6 where
    m1: "(s1, c1) \<in> set (matches True (Lit T) (s, []))" and
    m2: "(s2, c2) \<in> set (matches True (Rep not_gt 0 True) (s1, c1))" and
    m3: "(s3, c3) \<in> set (matches True (Lit L) (s2, c2))" and
    m4: "(s4, c4) \<in> set (matches True (Rep not_gt 0 True) (s3, c3))" and
    m5: "(s5, c5) \<in> set (matches True (Lit (js ''>'')) (s4, c4))" and
    m6: "(s6, c6) \<in> set (matches True (Group g (Rep any_cls 0 False)) (s5, c5))" and
    7: "(s', c') \<in> set (matches True (Lit CL) (s6, c6))"
    unfolding element_re_def seqs.simps matches_Seq_iff
    by blast
  from m1 have c1: "c1 = []" unfolding matches_Lit_iff by simp
  from m2 c1 have c2: "c2 = []" unfolding matches_Rep_iff by simp
  from m3 c2 have c3: "c3 = []" unfolding matches_Lit_iff by simp
  from m4 c3 have c4: "c4 = []" unfolding matches_Rep_iff by simp
  from m5 c4 have c5: "c5 = []" unfolding matches_Lit_iff by simp
  note 1 = m1 [unfolded c1] and 2 = m2 [unfolded c1 c2] and 3 = m3 [unfolded c2 c3]
    and 4 = m4 [unfolded c3 c4] and 5 = m5 [unfolded c4 c5] and 6 = m6 [unfolded c5]
  from 1 obtain t where t: "s = t @ s1" "lit_eq True t T"
    unfolding matches_Lit_iff by blast
  from 2 obtain x where x: "s1 = x @ s2" "62 \<notin> set x"
    unfolding matches_Rep_iff in_not_gt by blast
  from 3 obtain l where l: "s2 = l @ s3" "lit_eq True l L"
    unfolding matches_Lit_iff by blast
  from 4 obtain y where y: "s3 = y @ s4" "62 \<notin> set y"
    unfolding matches_Rep_iff in_not_gt by blast
  from 5 have g: "s4 = [62] @ s5"
    unfolding matches_Lit_iff by (auto simp: lit_eq_gt js_def)
  from 6 obtain c where c: "s5 = c @ s6" "c6 = [(g, take (length s5 - length s6) s5)]"
    unfolding matches_Group_iff matches_Rep_iff by blast
  then have c6: "c6 = [(g, c)]" by simp
  from 7 obtain cl where cl: "s6 = cl @ s'" "lit_eq True cl CL" "c' = c6"
    unfolding matches_Lit_iff by blast
  from t x l y g c(1) cl c6
  have "s = t @ x @ l @ y @ [62] @ c @ cl @ s' \<and> lit_eq True t T \<and> 62 \<notin> set x \<and>
        lit_eq True l L \<and> 62 \<notin> set y \<and> lit_eq True cl CL \<and> c' = [(g, c)]"
    by simp
  then show "\<exists>t x l y c cl. s = t @ x @ l @ y @ [62] @ c @ cl @ s' \<and>
        lit_eq True t T \<and> 62 \<notin> set x \<and> lit_eq True l L \<and> 62 \<notin> set y \<and>
        lit_eq True cl CL \<and> c' = [(g, c)]"
    by blast
next
  assume "\<exists>t x l y c cl. s = t @ x @ l @ y @ [62] @ c @ cl @ s' \<and>
        lit_eq True t T \<and> 62 \<notin> set x \<and> lit_eq True l L \<and> 62 \<notin> set y \<and>
        lit_eq True cl CL \<and> c' = [(g, c)]"
  then obtain t x l y c cl where d: "s = t @ x @ l @ y @ [62] @ c @ cl @ s'"
    "lit_eq True t T" "62 \<notin> set x" "lit_eq True l L" "62 \<notin> set y" "lit_eq True cl CL"
    "c' = [(g, c)]"
    by blast
  have 1: "(x @ l @ y @ [62] @ c @ cl @ s', []) \<in> set (matches True (Lit T) (s, []))"
    unfolding matches_Lit_iff using d(1,2) lit_eq_length [OF d(2)] by blast
  have 2: "(l @ y @ [62] @ c @ cl @ s', []) \<in>
           set (matches True (Rep not_gt 0 True) (x @ l @ y @ [62] @ c @ cl @ s', []))"
    unfolding matches_Rep_iff in_not_gt using d(3) by auto
  have 3: "(y @ [62] @ c @ cl @ s', []) \<in> set (matches True (Lit L) (l @ y @ [62] @ c @ cl @ s', []))"
    unfolding matches_Lit_iff using d(4) lit_eq_length [OF d(4)] by blast
  have 4: "([62] @ c @ cl @ s', []) \<in>
           set (matches True (Rep not_gt 0 True) (y @ [62] @ c @ cl @ s', []))"
    unfolding matches_Rep_iff in_not_gt using d(5) by auto
  have 5: "(c @ cl @ s', []) \<in> set (matches True (Lit (js ''>'')) ([62] @ c @ cl @ s', []))"
    unfolding matches_Lit_iff by (auto simp: lit_eq_def js_def canon_def)
  have "(cl @ s', []) \<in> set (matches True (Rep any_cls 0 False) (c @ cl @ s', []))"
    unfolding matches_Rep_iff using in_any by auto
  then have 6: "(cl @ s', [(g, c)]) \<in>
           set (matches True (Group g (Rep any_cls 0 False)) (c @ cl @ s', []))"
    unfolding matches_Group_iff by simp
  have 7: "(s', [(g, c)]) \<in> set (matches True (Lit CL) (cl @ s', [(g, c)]))"
    unfolding matches_Lit_iff using d(6) lit_eq_length [OF d(6)] by blast
  from 1 2 3 4 5 6 7 d(7) show "(s', c') \<in> set (matches True (element_re T L CL g) (s, []))"
    unfolding element_re_def seqs.simps matches_Seq_iff by blast
qed

lemma error_text_re_alt:
  \<open>error_text_re =
     Alt (element_re (js ''<text'') (js ''class="error"'') (js ''</text>'') 1)
         (element_re (js ''<text'') (js ''fill="red"'') (js ''</text>'') 2)\<close>
  by (simp add: error_text_re_def element_re_def)

lemma error_text_matches_iff:
  \<open>(s', c') \<in> set (matches True error_text_re (s, [])) \<longleftrightarrow>
     (\<exists>t x l y c cl. s = t @ x @ l @ y @ [62] @ c @ cl @ s' \<and>
        lit_eq True t (js ''<text'') \<and> 62 \<notin> set x \<and> 62 \<notin> set y \<and>
        lit_eq True cl (js ''</text>'') \<and>
        (lit_eq True l (js ''class="error"'') \<and> c' = [(1, c)] \<or>
         lit_eq True l (js ''fill="red"'') \<and> c' = [(2, c)]))\<close>
  unfolding error_text_re_alt matches_Alt_iff element_re_iff by blast

lemma errorTextMatch_None_iff:
  \<open>errorTextMatch s = None \<longleftrightarrow>
     \<not> (\<exists>pre t x l y c cl post. s = pre @ t @ x @ l @ y @ [62] @ c @ cl @ post \<and>
          lit_eq True t (js ''<text'') \<and> 62 \<notin> set x \<and> 62 \<notin> set y \<and>
          lit_eq True cl (js ''</text>'') \<and>
          (lit_eq True l (js ''class="error"'') \<or> lit_eq True l (js ''fill="red"'')))\<close>
proof -
  have ne: "matches True error_text_re (b, []) = [] \<longleftrightarrow>
            \<not> (\<exists>s' c'. (s', c') \<in> set (matches True error_text_re (b, [])))" for b
    by (cases "matches True error_text_re (b, [])") auto
  show ?thesis
    unfolding errorTextMatch_def match_def search_None_iff ne error_text_matches_iff
    by blast
qed



section \<open>The HTML check comes first\<close>

lemma utf8_decode_Nil: "utf8_decode [] = []"
  by (simp add: utf8_decode_def)

lemma getDiagramData_2xx:
  assumes "type opts \<in> set validTypes"
    and "or_default (outputFormat opts) (js ''svg'') = fmt"
    and "fmt \<in> set validFormats"
    and "axios_get e (diagram_url (type opts) fmt (encodedContent e (content opts)))
           = Response status header body"
    and "200 \<le> status \<and> status < 300"
  shows "fst (getDiagramData e opts) =
           checkResponse e fmt (case scale opts of None \<Rightarrow> Fin 1 | Some x \<Rightarrow> x) header body"
  using getDiagramData_valid [of opts e] assms by (simp add: Let_def)

lemma getDiagramData_stub:
  "fst (getDiagramData (stub_env (Response 200 h b))
         \<lparr>type = js ''mermaid'', content = c, outputFormat = Some (js ''svg''), scale = k\<rparr>)
   = checkResponse (stub_env (Response 200 h b)) (js ''svg'')
       (case k of None \<Rightarrow> Fin 1 | Some x \<Rightarrow> x) h b"
proof -
  let ?e = "stub_env (Response 200 h b)"
  let ?o = "\<lparr>type = js ''mermaid'', content = c, outputFormat = Some (js ''svg''), scale = k\<rparr>"
  have f: "or_default (outputFormat ?o) (js ''svg'') = js ''svg''"
    by (simp add: or_default_def)
  have a: "axios_get ?e (diagram_url (type ?o) (js ''svg'') (encodedContent ?e (content ?o)))
           = Response 200 h b"
    by (simp add: stub_env_def)
  from getDiagramData_2xx [OF _ f valid_mermaid_svg(2) a] show ?thesis
    by (simp add: valid_mermaid_svg)
qed

lemma svg_content_type:
  "or_default (map_option toLowerCase (Some (js ''image/svg+xml''))) [] = js ''image/svg+xml''"
  by (simp add: text_defs)

lemmas check_defs = checkResponse_def isHtmlResponse_def errorTextMatch_def svg_content_type
  text_defs re_defs Let_def

text \<open>
  What the code does on a response of status 2xx: it is an HTML error as soon as its content
  type, in lower case, contains \<open>text/html\<close>, or the first 100 bytes of its body,
  decoded and trimmed, start with \<open><html\<close> or with \<open><!DOCTYPE html\<close>, written
  exactly so. Nothing is assumed on the output format or on what the search for an error text
  in an SVG would find: the HTML check comes first, and a body that passes both is an HTML
  error.
\<close>

lemma html_check_comes_first:
  assumes "type opts \<in> set validTypes"
    and "or_default (outputFormat opts) (js ''svg'') = fmt"
    and "fmt \<in> set validFormats"
    and "axios_get e (diagram_url (type opts) fmt (encodedContent e (content opts)))
           = Response status header body"
    and "200 \<le> status \<and> status < 300"
    and "(\<exists>h. header = Some h \<and> includes_str (toLowerCase h) (js ''text/html''))
         \<or> startsWith (trim (utf8_decode (take 100 body))) (js ''<html'')
         \<or> startsWith (trim (utf8_decode (take 100 body))) (js ''<!DOCTYPE html'')"
  shows "fst (getDiagramData e opts) =
           Inl (McpError e InvalidParams
                 (kroki_error_prefix @ extractedMessage (utf8_decode body)))"
proof -
  from assms(6) have "isHtmlResponse (or_default (map_option toLowerCase header) []) body"
    by (auto simp: isHtmlResponse_def or_default_def js_def)
  from checkResponse_html [OF this]
  show ?thesis
    using getDiagramData_2xx [OF assms(1-5)] by (simp add: htmlError_def)
qed

lemma html_check_comes_first_run:
  \<open>errorTextMatch (utf8_decode (ascii ''<html><text class="error">x</text></html>'')) \<noteq> None
   \<and> fst (getDiagramData
           (stub_env (Response 200 (Some (js ''image/svg+xml''))
                        (ascii ''<html><text class="error">x</text></html>'')))
           \<lparr>type = js ''mermaid'', content = js ''graph TD; A-->B;'',
            outputFormat = Some (js ''svg''), scale = None\<rparr>)
     = Inl (McpError
             (stub_env (Response 200 (Some (js ''image/svg+xml''))
                          (ascii ''<html><text class="error">x</text></html>'')))
             InvalidParams (kroki_error_prefix @ js ''Unknown error (HTML response)''))\<close>
proof -
  let ?b = \<open>ascii ''<html><text class="error">x</text></html>''\<close>
  let ?e = "stub_env (Response 200 (Some (js ''image/svg+xml'')) ?b)"
  let ?o = "\<lparr>type = js ''mermaid'', content = js ''graph TD; A-->B;'',
            outputFormat = Some (js ''svg''), scale = None\<rparr>"
  have h1: "type ?o \<in> set validTypes" by (simp add: valid_mermaid_svg)
  have h2: "or_default (outputFormat ?o) (js ''svg'') = js ''svg''" by (simp add: or_default_def)
  have h4: "axios_get ?e (diagram_url (type ?o) (js ''svg'') (encodedContent ?e (content ?o)))
            = Response 200 (Some (js ''image/svg+xml'')) ?b"
    by (simp add: stub_env_def)
  have h5: "200 \<le> (200::nat) \<and> (200::nat) < 300" by simp
  have h6: "(\<exists>h. Some (js ''image/svg+xml'') = Some h \<and> includes_str (toLowerCase h) (js ''text/html''))
         \<or> startsWith (trim (utf8_decode (take 100 ?b))) (js ''<html'')
         \<or> startsWith (trim (utf8_decode (take 100 ?b))) (js ''<!DOCTYPE html'')"
    by (simp add: text_defs)
  have m: "extractedMessage (utf8_decode ?b) = js ''Unknown error (HTML response)''"
    by (simp add: extractedMessage_def text_defs re_defs Let_def)
  have s: "errorTextMatch (utf8_decode ?b) \<noteq> None"
    by (simp add: errorTextMatch_def text_defs re_defs Let_def)
  from html_check_comes_first [OF h1 h2 valid_mermaid_svg(2) h4 h5 h6] m s show ?thesis
    by simp
qed

text \<open>
  C1. The claim says that a body whose first characters are an HTML opening tag, compared
  without regard to case and with a DOCTYPE declaration allowed in front, is classified as an
  HTML error. The code means to detect the HTML error page of the service (the comment above the
  test says: the content type is HTML, or the content starts with an HTML tag), it lower-cases
  the content type before looking for \<open>text/html\<close> in it, and the patterns that read the
  title and the body of the page carry the flag \<open>i\<close>; but the two comparisons of the body
  with \<open><html\<close> and \<open><!DOCTYPE html\<close> are \<open>startsWith\<close>, case-sensitive.
  So a page that starts with \<open><HTML>\<close>, and one that starts with
  \<open><!doctype html>\<close>, both opening an HTML document but for the case of their letters,
  are not taken for HTML: with a content type other than \<open>text/html\<close> they are returned
  as successful SVG payloads, byte for byte.
\<close>

theorem uppercase_html_is_not_detected:
  \<open>lit_eq True (take 5 (trim (utf8_decode (take 100 (ascii ''<HTML><body>Error</body></HTML>'')))))
      (js ''<html'')
   \<and> fst (getDiagramData
           (stub_env (Response 200 (Some (js ''image/svg+xml''))
                        (ascii ''<HTML><body>Error</body></HTML>'')))
           \<lparr>type = js ''mermaid'', content = js ''graph TD; A-->B;'',
            outputFormat = Some (js ''svg''), scale = None\<rparr>)
     = Inr (ascii ''<HTML><body>Error</body></HTML>'', js ''svg'')
   \<and> trim (utf8_decode (take 100 (ascii ''<HTML><body>Error</body></HTML>'')))
     = js ''<HTML><body>Error</body></HTML>''
   \<and> toLowerCase (js ''<HTML'') = js ''<html''
   \<and> trim (utf8_decode (take 100 (ascii ''<!doctype html><html><body>Error</body></html>'')))
     = js ''<!doctype html><html><body>Error</body></html>''
   \<and> toLowerCase (js ''<!doctype html'') = toLowerCase (js ''<!DOCTYPE html'')
   \<and> fst (getDiagramData
           (stub_env (Response 200 (Some (js ''image/svg+xml''))
                        (ascii ''<!doctype html><html><body>Error</body></html>'')))
           \<lparr>type = js ''mermaid'', content = js ''graph TD; A-->B;'',
            outputFormat = Some (js ''svg''), scale = None\<rparr>)
     = Inr (ascii ''<!doctype html><html><body>Error</body></html>'', js ''svg'')\<close>
proof -
  have "lit_eq True (take 5 (trim (utf8_decode (take 100 (ascii ''<HTML><body>Error</body></HTML>'')))))
      (js ''<html'')"
    by (simp add: text_defs lit_eq_def canon_def)
  moreover have "checkResponse e (js ''svg'') (Fin 1) (Some (js ''image/svg+xml''))
                   (ascii ''<HTML><body>Error</body></HTML>'')
                 = Inr (ascii ''<HTML><body>Error</body></HTML>'', js ''svg'')" for e
    by (simp add: check_defs)
  moreover have "checkResponse e (js ''svg'') (Fin 1) (Some (js ''image/svg+xml''))
                   (ascii ''<!doctype html><html><body>Error</body></html>'')
                 = Inr (ascii ''<!doctype html><html><body>Error</body></html>'', js ''svg'')" for e
    by (simp add: check_defs)
  moreover have "trim (utf8_decode (take 100 (ascii ''<HTML><body>Error</body></HTML>'')))
     = js ''<HTML><body>Error</body></HTML>''"
    by (simp add: text_defs)
  moreover have "trim (utf8_decode (take 100 (ascii ''<!doctype html><html><body>Error</body></html>'')))
     = js ''<!doctype html><html><body>Error</body></html>''"
    by (simp add: text_defs)
  moreover have "toLowerCase (js ''<HTML'') = js ''<html''"
    "toLowerCase (js ''<!doctype html'') = toLowerCase (js ''<!DOCTYPE html'')"
    by (simp_all add: text_defs)
  ultimately show ?thesis
    by (simp only: getDiagramData_stub option.case simp_thms)
qed

section \<open>An error text inside an SVG\<close>





section \<open>What a successful result holds\<close>

text \<open>
  C10 (as amended). When \<open>getDiagramData\<close> succeeds for the format \<open>svg\<close> or \<open>base64\<close>, the
  body of the response was searched and holds no text element marked as an error (none with
  \<open>class="error"\<close>, none with \<open>fill="red"\<close>); a body that holds one is never returned as a
  success. The bytes returned are the body of the response itself, except for \<open>svg\<close> with a
  scale above 1 and a body that is not empty, where they are the body after scaling.
\<close>

theorem success_passed_the_scan:
  assumes "type opts \<in> set validTypes"
    and "or_default (outputFormat opts) (js ''svg'') = fmt"
    and "fmt = js ''svg'' \<or> fmt = js ''base64''"
    and "axios_get e (diagram_url (type opts) fmt (encodedContent e (content opts)))
           = Response status header body"
    and "k = (case scale opts of None \<Rightarrow> Fin 1 | Some x \<Rightarrow> x)"
    and "fst (getDiagramData e opts) = Inr (d, f)"
  shows \<open>errorTextMatch (utf8_decode body) = None
       \<and> \<not> (\<exists>pre t x l y c cl post.
              utf8_decode body = pre @ t @ x @ l @ y @ [62] @ c @ cl @ post \<and>
              lit_eq True t (js ''<text'') \<and> 62 \<notin> set x \<and> 62 \<notin> set y \<and>
              lit_eq True cl (js ''</text>'') \<and>
              (lit_eq True l (js ''class="error"'') \<or> lit_eq True l (js ''fill="red"'')))
       \<and> (if gt_one k \<and> fmt = js ''svg'' \<and> body \<noteq> []
          then d = utf8_encode (applyScale e k (utf8_decode body))
          else d = body)\<close>
proof -
  from assms(3) have fv: "fmt \<in> set validFormats"
    using valid_mermaid_svg by auto
  from assms(4,6) have ok: "200 \<le> status \<and> status < 300"
    using getDiagramData_valid [of opts e] assms(1,2) fv
    by (auto simp: Let_def split: if_splits)
  from getDiagramData_2xx [OF assms(1,2) fv assms(4) ok] assms(5,6)
  have cr: "checkResponse e fmt k header body = Inr (d, f)" by simp
  have none: "errorTextMatch (utf8_decode body) = None"
  proof (cases "body = []")
    case True
    then show ?thesis
      by (simp add: utf8_decode_Nil errorTextMatch_None_iff)
  next
    case False
    with cr assms(3) show ?thesis
      by (auto simp: checkResponse_def Let_def split: if_splits option.splits)
  qed
  have sc: "if gt_one k \<and> fmt = js ''svg'' \<and> body \<noteq> []
          then d = utf8_encode (applyScale e k (utf8_decode body)) else d = body"
    using cr none
    by (auto simp: checkResponse_def Let_def split: if_splits option.splits)
  from none [unfolded errorTextMatch_None_iff] none sc show ?thesis
    by blast
qed


theorem success_passed_the_scan_witness:
  \<open>errorTextMatch (utf8_decode (ascii ''<svg><text>A</text></svg>'')) = None
   \<and> fst (getDiagramData (stub_env svg_ok)
           \<lparr>type = js ''mermaid'', content = js ''graph TD; A-->B;'',
            outputFormat = Some (js ''base64''), scale = Some (Fin 2)\<rparr>)
     = Inr (ascii ''<svg><text>A</text></svg>'', js ''base64'')\<close>
proof -
  let ?b = "ascii ''<svg><text>A</text></svg>''"
  let ?e = "stub_env svg_ok"
  let ?o = "\<lparr>type = js ''mermaid'', content = js ''graph TD; A-->B;'',
            outputFormat = Some (js ''base64''), scale = Some (Fin 2)\<rparr>"
  have ne: "js ''base64'' \<noteq> []" "js ''base64'' \<noteq> js ''svg''" by (simp_all add: js_def)
  have h1: "type ?o \<in> set validTypes" by (simp add: valid_mermaid_svg)
  have h2: "or_default (outputFormat ?o) (js ''svg'') = js ''base64''"
    using ne by (simp add: or_default_def)
  have h3: "js ''base64'' = js ''svg'' \<or> js ''base64'' = js ''base64''" by simp
  have h4: "axios_get ?e (diagram_url (type ?o) (js ''base64'') (encodedContent ?e (content ?o)))
            = Response 200 (Some (js ''image/svg+xml'')) ?b"
    by (simp add: stub_env_def svg_ok_def)
  have h5: "Fin 2 = (case scale ?o of None \<Rightarrow> Fin 1 | Some x \<Rightarrow> x)" by simp
  have cr: "checkResponse ?e (js ''base64'') (Fin 2) (Some (js ''image/svg+xml'')) ?b
            = Inr (?b, js ''base64'')"
    unfolding checkResponse_def Let_def svg_content_type
    using ne
    by (simp only: not_html_svg_doc no_error_svg_doc if_False if_True if_cancel option.case simp_thms)
  have "fst (getDiagramData ?e ?o) = Inr (?b, js ''base64'')"
    using getDiagramData_2xx [OF h1 h2 valid_mermaid_svg(3) h4] cr by simp
  from success_passed_the_scan [OF h1 h2 h3 h4 h5 this] this ne show ?thesis
    by simp
qed

text \<open>
  The claim as stated fails for the bytes returned after scaling: the search runs on the
  body as received, and rewriting the width can put \<open>class="error"\<close> together. The body
  below passes the search, and the bytes returned for it hold a text element with
  \<open>class="error"\<close>.
\<close>

theorem scaling_can_create_an_error_text:
  \<open>fst (getDiagramData
         (stub_env (Response 200 (Some (js ''image/svg+xml''))
                      (ascii ''<text <svg width="1c0lass="error">boom</text>'')))
         \<lparr>type = js ''mermaid'', content = js ''graph TD; A-->B;'',
          outputFormat = Some (js ''svg''), scale = Some (Fin 2)\<rparr>)
   = Inr (ascii ''<text <svg width="2.00class="error">boom</text>'', js ''svg'')
   \<and> errorTextMatch (utf8_decode (ascii ''<text <svg width="2.00class="error">boom</text>''))
     = Some \<lparr>before = [], matched = js ''<text <svg width="2.00class="error">boom</text>'',
             groups = [(1, js ''boom'')], after = []\<rparr>\<close>
proof -
  let ?b = \<open>ascii ''<text <svg width="1c0lass="error">boom</text>''\<close>
  have nh: "\<not> isHtmlResponse (js ''image/svg+xml'') ?b"
    by (simp add: isHtmlResponse_def text_defs)
  have ne: "?b \<noteq> []" by (simp add: ascii_def)
  have dec: \<open>utf8_decode ?b = js ''<text <svg width="1c0lass="error">boom</text>''\<close>
    by (simp add: text_defs)
  have ev: \<open>errorTextMatch (js ''<text <svg width="1c0lass="error">boom</text>'') = None\<close>
    by (simp add: errorTextMatch_def text_defs re_defs Let_def)
  have sc: \<open>applyScale e (Fin 2) (js ''<text <svg width="1c0lass="error">boom</text>'')
            = js ''<text <svg width="2.00class="error">boom</text>''\<close> for e
    by (simp add: applyScale_def scaled_attr_def str_replace_def text_defs re_defs num_defs Let_def)
  have enc: \<open>utf8_encode (js ''<text <svg width="2.00class="error">boom</text>'')
             = ascii ''<text <svg width="2.00class="error">boom</text>''\<close>
    by (simp add: text_defs byte_defs)
  have g: "gt_one (Fin 2)" by simp
  have \<open>checkResponse e (js ''svg'') (Fin 2) (Some (js ''image/svg+xml'')) ?b
        = Inr (ascii ''<text <svg width="2.00class="error">boom</text>'', js ''svg'')\<close> for e
    unfolding checkResponse_def Let_def svg_content_type dec
    by (simp only: nh ne ev g sc enc if_False if_True option.case simp_thms)
  moreover have \<open>errorTextMatch (utf8_decode (ascii ''<text <svg width="2.00class="error">boom</text>''))
     = Some \<lparr>before = [], matched = js ''<text <svg width="2.00class="error">boom</text>'',
             groups = [(1, js ''boom'')], after = []\<rparr>\<close>
    by (simp add: errorTextMatch_def text_defs re_defs Let_def)
  ultimately show ?thesis
    by (simp only: getDiagramData_stub option.case)
qed

section \<open>Scaling the width and the height\<close>

text \<open>
  C6. The claim says that for a root tag that declares a width and a height the scaling
  multiplies both. Evaluated on a root tag that also has a \<open>stroke-width\<close> in front, the
  function takes the end of \<open>stroke-width="2"\<close> for the width: with scale 2 it turns the
  stroke width into \<open>4.00px\<close> and leaves the width of \<open>100px\<close> as it was, while the height
  becomes \<open>100.00px\<close>.
\<close>

theorem scaling_hits_stroke_width:
  \<open>fst (getDiagramData
         (stub_env (Response 200 (Some (js ''image/svg+xml''))
                      (ascii ''<svg stroke-width="2" width="100px" height="50px"></svg>'')))
         \<lparr>type = js ''mermaid'', content = js ''graph TD; A-->B;'',
          outputFormat = Some (js ''svg''), scale = Some (Fin 2)\<rparr>)
   = Inr (ascii ''<svg stroke-width="4.00px" width="100px" height="100.00px"></svg>'', js ''svg'')\<close>
proof -
  let ?b = \<open>ascii ''<svg stroke-width="2" width="100px" height="50px"></svg>''\<close>
  have nh: "\<not> isHtmlResponse (js ''image/svg+xml'') ?b"
    by (simp add: isHtmlResponse_def text_defs)
  have ne: "?b \<noteq> []" by (simp add: ascii_def)
  have dec: \<open>utf8_decode ?b = js ''<svg stroke-width="2" width="100px" height="50px"></svg>''\<close>
    by (simp add: text_defs)
  have ev: \<open>errorTextMatch (js ''<svg stroke-width="2" width="100px" height="50px"></svg>'') = None\<close>
    by (simp add: errorTextMatch_def text_defs re_defs Let_def)
  have sc: \<open>applyScale e (Fin 2) (js ''<svg stroke-width="2" width="100px" height="50px"></svg>'')
            = js ''<svg stroke-width="4.00px" width="100px" height="100.00px"></svg>''\<close> for e
    by (simp add: applyScale_def scaled_attr_def str_replace_def text_defs re_defs num_defs Let_def)
  have enc: \<open>utf8_encode (js ''<svg stroke-width="4.00px" width="100px" height="100.00px"></svg>'')
             = ascii ''<svg stroke-width="4.00px" width="100px" height="100.00px"></svg>''\<close>
    by (simp add: text_defs byte_defs)
  have g: "gt_one (Fin 2)" by simp
  have \<open>checkResponse e (js ''svg'') (Fin 2) (Some (js ''image/svg+xml'')) ?b
        = Inr (ascii ''<svg stroke-width="4.00px" width="100px" height="100.00px"></svg>'',
               js ''svg'')\<close> for e
    unfolding checkResponse_def Let_def svg_content_type dec
    by (simp only: nh ne ev g sc enc if_False if_True option.case simp_thms)
  then show ?thesis
    by (simp only: getDiagramData_stub option.case)
qed

text \<open>On the example of the specification the scaling does what is claimed.\<close>

lemma scaling_spec_example:
  \<open>applyScale e (Fin 2) (js ''<svg width="100px" height="50px"></svg>'')
     = js ''<svg width="200.00px" height="100.00px"></svg>''\<close>
  by (simp add: applyScale_def scaled_attr_def str_replace_def text_defs re_defs num_defs Let_def)


end
